theory Spec2Isabelle
  imports Complex_Main
begin

section \<open>The SMO support vector machine of SVM\_final\_main.ipynb\<close>

text \<open>
  The notebook defines the methods of one class: the constructor, \<open>init_args\<close>,
  \<open>computer_product_matrix\<close>, \<open>kernel\<close>, \<open>function_g\<close>, \<open>create_E\<close>, \<open>fit\<close>,
  \<open>examine_example\<close>, \<open>update_alpha_pair\<close>, \<open>clip_alpha\<close>, \<open>predict\<close>, \<open>score\<close>,
  \<open>decision_function\<close> and two read-only properties. Each method is embedded below as a
  function on a record of the object's attributes that returns the updated record.

  Numbers. The source computes with 64-bit floating point numbers (numpy). In the
  embedding of the methods they are the real numbers: every arithmetic operation is exact,
  and there is no NaN and no infinity. One operation is rounded there too: the bound
  \<open>self.C - 1e-6\<close> that the multipliers are compared with, so that the comparison is the
  one of the source on every binary64 multiplier. Where a property depends on the
  rounding of the other operations, the arithmetic of the method is embedded a second
  time with every operation rounded to binary64; these definitions carry the suffix
  \<open>_f64\<close>.

  Arrays. A one-dimensional numpy array is a list, a two-dimensional array a list of rows.
  The attributes \<open>alpha\<close>, \<open>Y\<close>, \<open>E\<close> and the rows of \<open>product_matrix\<close> all have
  length \<open>m\<close> once \<open>init_args\<close> has run on a feature matrix with \<open>m\<close> rows and a label
  vector of length \<open>m\<close>; the predicate \<open>wf_state\<close> says so, and the theorems about the
  training state assume it. The exceptions modelled as values are the ones a caller can
  trigger on such a state: an index out of range, vectors of different dimension handed
  to the kernel, a division by zero and the read of an unbound local variable.
\<close>

datatype error = IndexError | ValueError | ZeroDivisionError | UnboundLocalError

type_synonym vec = "real list"

text \<open>
  The attributes of the object. \<open>svm_C\<close>, \<open>svm_m\<close>, \<open>svm_X\<close>, \<open>svm_Y\<close>, \<open>svm_b\<close>
  and \<open>svm_E\<close> are \<open>self.C\<close>, \<open>self.m\<close>, \<open>self.X\<close>, \<open>self.Y\<close>, \<open>self.b\<close> and
  \<open>self.E\<close>; \<open>kernel_name\<close> is \<open>self._kernel\<close>. The attributes \<open>self.n\<close> and
  \<open>self.visualize\<close> are written once and never read; they are left out.
\<close>

record svm =
  max_iter :: int
  kernel_name :: string
  svm_C :: real
  svm_m :: nat
  svm_X :: "vec list"
  svm_Y :: "real list"
  alpha :: "real list"
  svm_b :: real
  product_matrix :: "real list list"
  svm_E :: "real list"

definition wf_state :: "svm \<Rightarrow> bool" where
  "wf_state s \<longleftrightarrow>
     length (svm_X s) = svm_m s \<and> length (svm_Y s) = svm_m s \<and>
     length (alpha s) = svm_m s \<and> length (svm_E s) = svm_m s \<and>
     length (product_matrix s) = svm_m s \<and>
     list_all (\<lambda>row. length row = svm_m s) (product_matrix s)"

text \<open>
  The tolerance \<open>1e-6\<close> of the KKT check and of the non-bound test: the literal denotes
  the double nearest to \<open>10\<^sup>-\<^sup>6\<close>, which is \<open>4722366482869645 / 2\<^sup>7\<^sup>2\<close>, a little
  below \<open>10\<^sup>-\<^sup>6\<close>.
\<close>

definition eps :: real where
  "eps = 4722366482869645 / 2 ^ 72"

subsection \<open>binary64 rounding\<close>

text \<open>
  numpy computes with IEEE 754 binary64 numbers and rounds every operation to the nearest
  one, a tie to the neighbour with the even significand. \<open>f64\<close> is this rounding on the
  reals: \<open>binade\<close> finds the exponent \<open>e\<close> of the leading bit, \<open>2\<^sup>e \<le> |x| < 2\<^sup>e\<^sup>+\<^sup>1\<close>,
  the spacing of the binary64 numbers around \<open>x\<close> is \<open>2\<^sup>e\<^sup>-\<^sup>5\<^sup>2\<close>, and \<open>2\<^sup>-\<^sup>1\<^sup>0\<^sup>7\<^sup>4\<close> for
  \<open>e < -1022\<close>. Overflow to infinity is not modelled: a value of magnitude
  \<open>2\<^sup>1\<^sup>0\<^sup>2\<^sup>4\<close> or more is rounded like any other.
\<close>

fun binade :: "nat \<Rightarrow> real \<Rightarrow> int \<Rightarrow> int" where
  "binade 0 x e = e"
| "binade (Suc n) x e =
     (if 2 \<le> x then binade n (x / 2) (e + 1)
      else if x < 1 then binade n (x * 2) (e - 1)
      else e)"

definition pow2 :: "int \<Rightarrow> real" where
  "pow2 e = (if 0 \<le> e then 2 ^ nat e else 1 / 2 ^ nat (- e))"

definition round_half_even :: "real \<Rightarrow> int" where
  "round_half_even q =
     (let f = \<lfloor>q\<rfloor>
      in if q - of_int f < 1 / 2 then f
         else if 1 / 2 < q - of_int f then f + 1
         else if even f then f else f + 1)"

definition f64 :: "real \<Rightarrow> real" where
  "f64 x =
     (if x = 0 then 0
      else let u = pow2 (max (binade 1100 \<bar>x\<bar> 0) (- 1022) - 52)
           in of_int (round_half_even (x / u)) * u)"

text \<open>The four operations on binary64 numbers.\<close>

definition add_f64 :: "real \<Rightarrow> real \<Rightarrow> real" where
  "add_f64 x y = f64 (x + y)"

definition sub_f64 :: "real \<Rightarrow> real \<Rightarrow> real" where
  "sub_f64 x y = f64 (x - y)"

definition mul_f64 :: "real \<Rightarrow> real \<Rightarrow> real" where
  "mul_f64 x y = f64 (x * y)"

definition div_f64 :: "real \<Rightarrow> real \<Rightarrow> real" where
  "div_f64 x y = f64 (x / y)"

subsection \<open>numpy helpers\<close>

text \<open>
  \<open>np.dot\<close> of two one-dimensional arrays raises ValueError unless they have the same
  length. \<open>x1 - x2\<close> broadcasts an array of length one against the other operand and
  raises ValueError on any other pair of different lengths.
\<close>

definition dot :: "vec \<Rightarrow> vec \<Rightarrow> real" where
  "dot x1 x2 = sum_list (map2 (*) x1 x2)"

definition np_dot :: "vec \<Rightarrow> vec \<Rightarrow> error + real" where
  "np_dot x1 x2 = (if length x1 = length x2 then Inr (dot x1 x2) else Inl ValueError)"

definition np_sub :: "vec \<Rightarrow> vec \<Rightarrow> error + vec" where
  "np_sub x1 x2 =
     (if length x1 = length x2 then Inr (map2 (-) x1 x2)
      else if length x1 = 1 then Inr (map (\<lambda>v. hd x1 - v) x2)
      else if length x2 = 1 then Inr (map (\<lambda>u. u - hd x2) x1)
      else Inl ValueError)"

subsection \<open>kernel\<close>

definition kernel :: "svm \<Rightarrow> vec \<Rightarrow> vec \<Rightarrow> error + real" where
  "kernel s x1 x2 =
     (if kernel_name s = ''linear'' then np_dot x1 x2
      else if kernel_name s = ''poly'' then
        (case np_dot x1 x2 of Inl e \<Rightarrow> Inl e | Inr d \<Rightarrow> Inr ((d + 1) ^ 2))
      else if kernel_name s = ''rbf'' then
        (case np_sub x1 x2 of Inl e \<Rightarrow> Inl e
         | Inr d \<Rightarrow> Inr (exp (- 1 * sum_list (map (\<lambda>v. v ^ 2) d))))
      else Inr 0)"

subsection \<open>function\_g and create\_E\<close>

text \<open>
  \<open>function_g\<close> multiplies \<open>alpha * Y\<close> with row \<open>i\<close> of the matrix; \<open>create_E\<close>
  multiplies the same vector with the whole matrix, so entry \<open>i\<close> of the result is the
  product with column \<open>i\<close>.
\<close>

definition function_g :: "svm \<Rightarrow> nat \<Rightarrow> real" where
  "function_g s i = svm_b s + dot (map2 (*) (alpha s) (svm_Y s)) (product_matrix s ! i)"

definition column :: "real list list \<Rightarrow> nat \<Rightarrow> real list" where
  "column M i = map (\<lambda>row. row ! i) M"

definition create_E :: "svm \<Rightarrow> svm" where
  "create_E s =
     s\<lparr>svm_E := map (\<lambda>i. dot (map2 (*) (alpha s) (svm_Y s)) (column (product_matrix s) i)
                          + svm_b s - svm_Y s ! i) [0..<svm_m s]\<rparr>"

subsection \<open>clip\_alpha and update\_alpha\_pair\<close>

definition clip_alpha :: "real \<Rightarrow> real \<Rightarrow> real \<Rightarrow> real" where
  "clip_alpha a L H = (if a > H then H else if a < L then L else a)"

text \<open>
  The result is the returned flag and the object after the call. The indices are
  compared first; after that the first read \<open>self.alpha[i1]\<close> raises IndexError for an
  index outside \<open>range(m)\<close>.
\<close>

definition update_alpha_pair :: "svm \<Rightarrow> nat \<Rightarrow> nat \<Rightarrow> error + (bool \<times> svm)" where
  "update_alpha_pair s i1 i2 =
     (if i1 = i2 then Inr (False, s)
      else if \<not> (i1 < svm_m s \<and> i2 < svm_m s) then Inl IndexError
      else
        let alpha1_old = alpha s ! i1;
            alpha2_old = alpha s ! i2;
            Y1 = svm_Y s ! i1;
            Y2 = svm_Y s ! i2;
            E1 = svm_E s ! i1;
            E2 = svm_E s ! i2;
            L = (if Y1 = Y2 then max 0 (alpha1_old + alpha2_old - svm_C s)
                 else max 0 (alpha2_old - alpha1_old));
            H = (if Y1 = Y2 then min (svm_C s) (alpha1_old + alpha2_old)
                 else min (svm_C s) (svm_C s + alpha2_old - alpha1_old));
            eta = product_matrix s ! i1 ! i1 + product_matrix s ! i2 ! i2
                  - 2 * product_matrix s ! i1 ! i2
        in if eta \<le> 0 then Inr (False, s)
           else
             let alpha2_new_unc = alpha2_old + Y2 * (E1 - E2) / eta;
                 alpha2_new = clip_alpha alpha2_new_unc L H;
                 alpha1_new = alpha1_old + Y1 * Y2 * (alpha2_old - alpha2_new);
                 b1_new = svm_b s - E1
                          - Y1 * product_matrix s ! i1 ! i1 * (alpha1_new - alpha1_old)
                          - Y2 * product_matrix s ! i2 ! i1 * (alpha2_new - alpha2_old);
                 b2_new = svm_b s - E2
                          - Y1 * product_matrix s ! i1 ! i2 * (alpha1_new - alpha1_old)
                          - Y2 * product_matrix s ! i2 ! i2 * (alpha2_new - alpha2_old);
                 b_new = (if 0 < alpha1_new \<and> alpha1_new < svm_C s then b1_new
                          else if 0 < alpha2_new \<and> alpha2_new < svm_C s then b2_new
                          else (b1_new + b2_new) / 2)
             in Inr (True,
                  create_E (s\<lparr>svm_b := b_new,
                               alpha := (alpha s)[i1 := alpha1_new, i2 := alpha2_new]\<rparr>)))"

subsection \<open>The constructor, computer\_product\_matrix and init\_args\<close>

text \<open>
  The constructor stores the three hyperparameters. In Python the other attributes do
  not exist before \<open>init_args\<close> has run; here they start as empty arrays.
\<close>

definition init :: "real \<Rightarrow> int \<Rightarrow> string \<Rightarrow> svm" where
  "init C_val max_iter_val kernel_val =
     \<lparr>max_iter = max_iter_val, kernel_name = kernel_val, svm_C = C_val, svm_m = 0,
      svm_X = [], svm_Y = [], alpha = [], svm_b = 0, product_matrix = [], svm_E = []\<rparr>"

text \<open>
  The inner loop over \<open>j\<close> in \<open>range(i, m)\<close>: it stores the kernel value at \<open>[i][j]\<close>
  and copies the stored entry to \<open>[j][i]\<close>. An exception of the kernel ends the loop.
\<close>

fun product_matrix_row :: "svm \<Rightarrow> nat \<Rightarrow> nat list \<Rightarrow> real list list \<Rightarrow> error + real list list" where
  "product_matrix_row s i [] M = Inr M"
| "product_matrix_row s i (j # js) M =
     (case kernel s (svm_X s ! i) (svm_X s ! j) of
        Inl e \<Rightarrow> Inl e
      | Inr v \<Rightarrow>
          (let M1 = M[i := (M ! i)[j := v]];
               M2 = M1[j := (M1 ! j)[i := M1 ! i ! j]]
           in product_matrix_row s i js M2))"

text \<open>The outer loop over \<open>i\<close> in \<open>range(m)\<close>.\<close>

fun product_matrix_rows :: "svm \<Rightarrow> nat list \<Rightarrow> real list list \<Rightarrow> error + real list list" where
  "product_matrix_rows s [] M = Inr M"
| "product_matrix_rows s (i # is) M =
     (case product_matrix_row s i [i..<svm_m s] M of
        Inl e \<Rightarrow> Inl e
      | Inr M' \<Rightarrow> product_matrix_rows s is M')"

definition computer_product_matrix :: "svm \<Rightarrow> error + svm" where
  "computer_product_matrix s =
     (case product_matrix_rows s [0..<svm_m s] (replicate (svm_m s) (replicate (svm_m s) 0)) of
        Inl e \<Rightarrow> Inl e
      | Inr M \<Rightarrow> Inr (s\<lparr>product_matrix := M\<rparr>))"

definition init_args :: "svm \<Rightarrow> vec list \<Rightarrow> real list \<Rightarrow> error + svm" where
  "init_args s features labels =
     (case computer_product_matrix
             (s\<lparr>svm_m := length features, svm_X := features, svm_Y := labels,
                alpha := replicate (length features) 0, svm_b := 0\<rparr>) of
        Inl e \<Rightarrow> Inl e
      | Inr s' \<Rightarrow> Inr (s'\<lparr>svm_E := map (\<lambda>y. svm_b s' - y) (svm_Y s')\<rparr>))"

subsection \<open>examine\_example\<close>

text \<open>
  \<open>np.argmax\<close> returns the position of the first occurrence of the largest entry and
  raises ValueError on an empty array.
\<close>

fun argmax_list :: "real list \<Rightarrow> nat" where
  "argmax_list [] = 0"
| "argmax_list [x] = 0"
| "argmax_list (x # y # ys) =
     (let k = argmax_list (y # ys) in if (y # ys) ! k > x then Suc k else 0)"

definition np_argmax :: "real list \<Rightarrow> error + nat" where
  "np_argmax xs = (if xs = [] then Inl ValueError else Inr (argmax_list xs))"

text \<open>
  The fallback loop of \<open>examine_example\<close> over the shuffled indices. Beside the flag and
  the object it returns the pairs handed to \<open>update_alpha_pair\<close> so far, in call order.
\<close>

fun examine_scan :: "svm \<Rightarrow> nat \<Rightarrow> nat list \<Rightarrow> (nat \<times> nat) list
    \<Rightarrow> error + (bool \<times> svm \<times> (nat \<times> nat) list)" where
  "examine_scan s i1 [] tried = Inr (False, s, tried)"
| "examine_scan s i1 (j2 # js) tried =
     (if j2 = i1 then examine_scan s i1 js tried
      else
        (case update_alpha_pair s i1 j2 of
           Inl e \<Rightarrow> Inl e
         | Inr (ok, s') \<Rightarrow>
             if ok then Inr (True, s', tried @ [(i1, j2)])
             else examine_scan s' i1 js (tried @ [(i1, j2)])))"

text \<open>
  The condition of the \<open>if\<close> of \<open>examine_example\<close>, with \<open>E1\<close> already computed. The
  sum \<open>0 + 1e-6\<close> is exact; the difference \<open>self.C - 1e-6\<close> is rounded.
\<close>

definition kkt_violated :: "svm \<Rightarrow> nat \<Rightarrow> real \<Rightarrow> bool" where
  "kkt_violated s i1 E1 \<longleftrightarrow>
     (let radius = E1 * svm_Y s ! i1
      in (alpha s ! i1 < eps \<and> radius < 0) \<or>
         (alpha s ! i1 > sub_f64 (svm_C s) eps \<and> radius > 0) \<or>
         (0 + eps \<le> alpha s ! i1 \<and> alpha s ! i1 \<le> sub_f64 (svm_C s) eps \<and> \<bar>radius\<bar> > eps))"

text \<open>
  \<open>np.random.shuffle\<close> draws from numpy's global generator. The order it leaves in
  \<open>all_indices\<close> is the argument \<open>shuffled\<close>: a permutation of \<open>range(m)\<close> chosen by the
  environment. The third component of the result is the list of the pairs on which
  \<open>update_alpha_pair\<close> was called, in call order.
\<close>

definition examine_example :: "svm \<Rightarrow> nat list \<Rightarrow> nat
    \<Rightarrow> error + (bool \<times> svm \<times> (nat \<times> nat) list)" where
  "examine_example s shuffled i1 =
     (if \<not> i1 < svm_m s then Inl IndexError
      else
        let E1 = function_g s i1 - svm_Y s ! i1
        in if kkt_violated s i1 E1 then
             let non_zero_alpha_indices =
                   filter (\<lambda>k. alpha s ! k > eps \<and> alpha s ! k < sub_f64 (svm_C s) eps)
                     [0..<length (alpha s)]
             in if length non_zero_alpha_indices > 0 then
                  let j_candidates = filter (\<lambda>k. k \<noteq> i1) non_zero_alpha_indices
                  in if length j_candidates > 0 then
                       (case np_argmax (map (\<lambda>k. \<bar>svm_E s ! k - E1\<bar>) j_candidates) of
                          Inl e \<Rightarrow> Inl e
                        | Inr pos \<Rightarrow>
                            (let j2 = j_candidates ! pos
                             in case update_alpha_pair s i1 j2 of
                                  Inl e \<Rightarrow> Inl e
                                | Inr (ok, s') \<Rightarrow>
                                    if ok then Inr (True, s', [(i1, j2)])
                                    else examine_scan s' i1 shuffled [(i1, j2)]))
                     else examine_scan s i1 shuffled []
                else examine_scan s i1 shuffled []
           else Inr (False, s, []))"

subsection \<open>predict, score and decision\_function\<close>

text \<open>
  The loop \<open>for i in range(self.m): r += alpha[i] * Y[i] * kernel(data, X[i])\<close>, which
  \<open>predict\<close> and both branches of \<open>decision_function\<close> run from \<open>r = self.b\<close>.
\<close>

fun decision_loop :: "svm \<Rightarrow> vec \<Rightarrow> nat list \<Rightarrow> real \<Rightarrow> error + real" where
  "decision_loop s data [] r = Inr r"
| "decision_loop s data (i # is) r =
     (case kernel s data (svm_X s ! i) of
        Inl e \<Rightarrow> Inl e
      | Inr k \<Rightarrow> decision_loop s data is (r + alpha s ! i * svm_Y s ! i * k))"

definition predict :: "svm \<Rightarrow> vec \<Rightarrow> error + int" where
  "predict s data =
     (case decision_loop s data [0..<svm_m s] (svm_b s) of
        Inl e \<Rightarrow> Inl e
      | Inr r \<Rightarrow> Inr (if r > 0 then 1 else - 1))"

text \<open>
  The loop of \<open>score\<close>: \<open>predict\<close> runs first, then \<open>y_test[i]\<close> is read, which raises
  IndexError when \<open>y_test\<close> is shorter than \<open>X_test\<close>.
\<close>

fun score_loop :: "svm \<Rightarrow> vec list \<Rightarrow> real list \<Rightarrow> nat list \<Rightarrow> nat \<Rightarrow> error + nat" where
  "score_loop s X_test y_test [] right_count = Inr right_count"
| "score_loop s X_test y_test (i # is) right_count =
     (case predict s (X_test ! i) of
        Inl e \<Rightarrow> Inl e
      | Inr result \<Rightarrow>
          if \<not> i < length y_test then Inl IndexError
          else score_loop s X_test y_test is
                 (if of_int result = y_test ! i then right_count + 1 else right_count))"

definition score :: "svm \<Rightarrow> vec list \<Rightarrow> real list \<Rightarrow> error + real" where
  "score s X_test y_test =
     (case score_loop s X_test y_test [0..<length X_test] 0 of
        Inl e \<Rightarrow> Inl e
      | Inr right_count \<Rightarrow>
          if length X_test = 0 then Inl ZeroDivisionError
          else Inr (real right_count / real (length X_test)))"

text \<open>The argument of \<open>decision_function\<close>: an array with \<open>ndim == 1\<close> or a matrix of rows.\<close>

datatype ndarray = Array1 vec | Array2 "vec list"

fun decision_rows :: "svm \<Rightarrow> vec list \<Rightarrow> real list \<Rightarrow> error + real list" where
  "decision_rows s [] decisions = Inr decisions"
| "decision_rows s (data_point # rest) decisions =
     (case decision_loop s data_point [0..<svm_m s] (svm_b s) of
        Inl e \<Rightarrow> Inl e
      | Inr r \<Rightarrow> decision_rows s rest (decisions @ [r]))"

fun decision_function :: "svm \<Rightarrow> ndarray \<Rightarrow> error + real list" where
  "decision_function s (Array1 X_eval) =
     (case decision_loop s X_eval [0..<svm_m s] (svm_b s) of
        Inl e \<Rightarrow> Inl e
      | Inr r \<Rightarrow> Inr [r])"
| "decision_function s (Array2 X_eval) = decision_rows s X_eval []"

text \<open>
  The properties \<open>support_vector_indices_\<close> and \<open>support_vectors_\<close>: the indices
  whose multiplier exceeds \<open>1e-6\<close>, and the training vectors at these indices.
\<close>

definition support_vector_indices :: "svm \<Rightarrow> nat list" where
  "support_vector_indices s = filter (\<lambda>i. alpha s ! i > eps) [0..<length (alpha s)]"

definition support_vectors :: "svm \<Rightarrow> vec list" where
  "support_vectors s = map (\<lambda>i. svm_X s ! i) (support_vector_indices s)"

subsection \<open>fit\<close>

text \<open>
  The loop over \<open>i\<close> in \<open>range(m)\<close> of one pass. \<open>orders i\<close> is the order that
  \<open>np.random.shuffle\<close> produces inside the call for index \<open>i\<close>. The list \<open>calls\<close> records
  every call of \<open>examine_example\<close>: its argument and the object at the start of the call.
\<close>

fun examine_all :: "(nat \<Rightarrow> nat list) \<Rightarrow> nat list \<Rightarrow> svm \<Rightarrow> (nat \<times> svm) list
    \<Rightarrow> error + (svm \<times> (nat \<times> svm) list)" where
  "examine_all orders [] s calls = Inr (s, calls)"
| "examine_all orders (i # is) s calls =
     (case examine_example s (orders i) i of
        Inl e \<Rightarrow> Inl e
      | Inr (ok, s', tried) \<Rightarrow> examine_all orders is s' (calls @ [(i, s)]))"

text \<open>The loop over \<open>passes\<close> in \<open>range(max_iter)\<close>.\<close>

fun fit_passes :: "(nat \<Rightarrow> nat \<Rightarrow> nat list) \<Rightarrow> vec list option \<Rightarrow> real list option
    \<Rightarrow> nat list \<Rightarrow> svm \<Rightarrow> real list \<Rightarrow> (nat \<times> svm) list
    \<Rightarrow> error + (svm \<times> real list \<times> (nat \<times> svm) list)" where
  "fit_passes rng X_test y_test [] s test_accuracies calls = Inr (s, test_accuracies, calls)"
| "fit_passes rng X_test y_test (passes # rest) s test_accuracies calls =
     (case examine_all (rng passes) [0..<svm_m s] s calls of
        Inl e \<Rightarrow> Inl e
      | Inr (s', calls') \<Rightarrow>
          (case (X_test, y_test) of
             (Some xt, Some yt) \<Rightarrow>
               (case score s' xt yt of
                  Inl e \<Rightarrow> Inl e
                | Inr current_accuracy \<Rightarrow>
                    fit_passes rng X_test y_test rest s'
                      (test_accuracies @ [current_accuracy]) calls')
           | _ \<Rightarrow> fit_passes rng X_test y_test rest s' test_accuracies calls'))"

text \<open>
  \<open>fit\<close> returns the list of accuracies; the object after training and the record of the
  calls of \<open>examine_example\<close> are returned with it. After the loop the source prints
  \<open>passes + 1\<close>: when \<open>range(max_iter)\<close> is empty the variable \<open>passes\<close> was never bound
  and the read raises UnboundLocalError.
\<close>

definition fit :: "svm \<Rightarrow> (nat \<Rightarrow> nat \<Rightarrow> nat list) \<Rightarrow> vec list \<Rightarrow> real list
    \<Rightarrow> vec list option \<Rightarrow> real list option
    \<Rightarrow> error + (real list \<times> svm \<times> (nat \<times> svm) list)" where
  "fit s rng features labels X_test y_test =
     (case init_args s features labels of
        Inl e \<Rightarrow> Inl e
      | Inr s0 \<Rightarrow>
          (case fit_passes rng X_test y_test [0..<nat (max_iter s0)] s0 [] [] of
             Inl e \<Rightarrow> Inl e
           | Inr (s', test_accuracies, calls) \<Rightarrow>
               if max_iter s0 \<le> 0 then Inl UnboundLocalError
               else Inr (test_accuracies, s', calls)))"

section \<open>The analytic step as the specification words it\<close>

text \<open>
  The quantities of the pair update as the specification states them, each as a function
  of the state before the call and the two indices.
\<close>

definition spec_eta :: "svm \<Rightarrow> nat \<Rightarrow> nat \<Rightarrow> real" where
  "spec_eta s i1 i2 =
     product_matrix s ! i1 ! i1 + product_matrix s ! i2 ! i2 - 2 * product_matrix s ! i1 ! i2"

definition spec_L :: "svm \<Rightarrow> nat \<Rightarrow> nat \<Rightarrow> real" where
  "spec_L s i1 i2 =
     (if svm_Y s ! i1 = svm_Y s ! i2 then max 0 (alpha s ! i1 + alpha s ! i2 - svm_C s)
      else max 0 (alpha s ! i2 - alpha s ! i1))"

definition spec_H :: "svm \<Rightarrow> nat \<Rightarrow> nat \<Rightarrow> real" where
  "spec_H s i1 i2 =
     (if svm_Y s ! i1 = svm_Y s ! i2 then min (svm_C s) (alpha s ! i1 + alpha s ! i2)
      else min (svm_C s) (svm_C s + alpha s ! i2 - alpha s ! i1))"

text \<open>
  The unclipped step, and the clipping as the notebook describes it: a value above \<open>H\<close>
  becomes \<open>H\<close>, a value below \<open>L\<close> becomes \<open>L\<close>, any other value stays.
\<close>

definition spec_alpha2_unc :: "svm \<Rightarrow> nat \<Rightarrow> nat \<Rightarrow> real" where
  "spec_alpha2_unc s i1 i2 =
     alpha s ! i2 + svm_Y s ! i2 * (svm_E s ! i1 - svm_E s ! i2) / spec_eta s i1 i2"

definition spec_alpha2_new :: "svm \<Rightarrow> nat \<Rightarrow> nat \<Rightarrow> real" where
  "spec_alpha2_new s i1 i2 =
     (if spec_H s i1 i2 < spec_alpha2_unc s i1 i2 then spec_H s i1 i2
      else if spec_alpha2_unc s i1 i2 < spec_L s i1 i2 then spec_L s i1 i2
      else spec_alpha2_unc s i1 i2)"

text \<open>
  Clipping to a non-empty interval \<open>[L, H]\<close>: the point of the interval nearest to the
  value.
\<close>

definition spec_clip :: "real \<Rightarrow> real \<Rightarrow> real \<Rightarrow> real" where
  "spec_clip L H a = max L (min H a)"

definition spec_alpha1_new :: "svm \<Rightarrow> nat \<Rightarrow> nat \<Rightarrow> real" where
  "spec_alpha1_new s i1 i2 =
     alpha s ! i1 + svm_Y s ! i1 * svm_Y s ! i2 * (alpha s ! i2 - spec_alpha2_new s i1 i2)"

definition spec_b1 :: "svm \<Rightarrow> nat \<Rightarrow> nat \<Rightarrow> real" where
  "spec_b1 s i1 i2 =
     svm_b s - svm_E s ! i1
     - svm_Y s ! i1 * product_matrix s ! i1 ! i1 * (spec_alpha1_new s i1 i2 - alpha s ! i1)
     - svm_Y s ! i2 * product_matrix s ! i2 ! i1 * (spec_alpha2_new s i1 i2 - alpha s ! i2)"

definition spec_b2 :: "svm \<Rightarrow> nat \<Rightarrow> nat \<Rightarrow> real" where
  "spec_b2 s i1 i2 =
     svm_b s - svm_E s ! i2
     - svm_Y s ! i1 * product_matrix s ! i1 ! i2 * (spec_alpha1_new s i1 i2 - alpha s ! i1)
     - svm_Y s ! i2 * product_matrix s ! i2 ! i2 * (spec_alpha2_new s i1 i2 - alpha s ! i2)"

definition spec_b_new :: "svm \<Rightarrow> nat \<Rightarrow> nat \<Rightarrow> real" where
  "spec_b_new s i1 i2 =
     (if 0 < spec_alpha1_new s i1 i2 \<and> spec_alpha1_new s i1 i2 < svm_C s then spec_b1 s i1 i2
      else if 0 < spec_alpha2_new s i1 i2 \<and> spec_alpha2_new s i1 i2 < svm_C s then spec_b2 s i1 i2
      else (spec_b1 s i1 i2 + spec_b2 s i1 i2) / 2)"

section \<open>The arithmetic of the pair update in binary64\<close>

text \<open>
  \<open>np.dot\<close> hands the sum of products to the linear algebra library of the numpy build;
  the notebook does not fix what is rounded on the way. Two accumulations in index order
  are embedded: \<open>np_dot_f64\<close> rounds every product and every sum, \<open>np_dot_fma_f64\<close> adds
  each product to the accumulator with one rounding (fused multiply-add). The methods
  below take the accumulation as an argument.
\<close>

definition np_dot_f64 :: "vec \<Rightarrow> vec \<Rightarrow> real" where
  "np_dot_f64 x1 x2 = foldl (\<lambda>acc (u, v). add_f64 acc (mul_f64 u v)) 0 (zip x1 x2)"

definition np_dot_fma_f64 :: "vec \<Rightarrow> vec \<Rightarrow> real" where
  "np_dot_fma_f64 x1 x2 = foldl (\<lambda>acc (u, v). f64 (acc + u * v)) 0 (zip x1 x2)"

text \<open>
  \<open>function_g\<close>, \<open>create_E\<close>, the condition of the KKT check and \<open>update_alpha_pair\<close>
  with every operation of the source rounded, in the order in which Python evaluates it:
  \<open>a + b - c\<close> is \<open>(a + b) - c\<close>, \<open>y * d / eta\<close> is \<open>(y * d) / eta\<close> and
  \<open>y * k * d\<close> is \<open>(y * k) * d\<close>. Comparisons, \<open>max\<close>, \<open>min\<close> and \<open>clip_alpha\<close> do not
  round.
\<close>

definition function_g_f64 :: "(vec \<Rightarrow> vec \<Rightarrow> real) \<Rightarrow> svm \<Rightarrow> nat \<Rightarrow> real" where
  "function_g_f64 np_dot_row s i =
     add_f64 (svm_b s) (np_dot_row (map2 mul_f64 (alpha s) (svm_Y s)) (product_matrix s ! i))"

definition create_E_f64 :: "(vec \<Rightarrow> vec \<Rightarrow> real) \<Rightarrow> svm \<Rightarrow> svm" where
  "create_E_f64 np_dot_column s =
     s\<lparr>svm_E := map (\<lambda>i. sub_f64
                            (add_f64 (np_dot_column (map2 mul_f64 (alpha s) (svm_Y s))
                                        (column (product_matrix s) i))
                                     (svm_b s))
                            (svm_Y s ! i)) [0..<svm_m s]\<rparr>"

definition kkt_violated_f64 :: "svm \<Rightarrow> nat \<Rightarrow> real \<Rightarrow> bool" where
  "kkt_violated_f64 s i1 E1 \<longleftrightarrow>
     (let radius = mul_f64 E1 (svm_Y s ! i1)
      in (alpha s ! i1 < eps \<and> radius < 0) \<or>
         (alpha s ! i1 > sub_f64 (svm_C s) eps \<and> radius > 0) \<or>
         (add_f64 0 eps \<le> alpha s ! i1 \<and> alpha s ! i1 \<le> sub_f64 (svm_C s) eps \<and>
          \<bar>radius\<bar> > eps))"

definition update_alpha_pair_f64 :: "(vec \<Rightarrow> vec \<Rightarrow> real) \<Rightarrow> svm \<Rightarrow> nat \<Rightarrow> nat
    \<Rightarrow> error + (bool \<times> svm)" where
  "update_alpha_pair_f64 np_dot_column s i1 i2 =
     (if i1 = i2 then Inr (False, s)
      else if \<not> (i1 < svm_m s \<and> i2 < svm_m s) then Inl IndexError
      else
        let alpha1_old = alpha s ! i1;
            alpha2_old = alpha s ! i2;
            Y1 = svm_Y s ! i1;
            Y2 = svm_Y s ! i2;
            E1 = svm_E s ! i1;
            E2 = svm_E s ! i2;
            L = (if Y1 = Y2 then max 0 (sub_f64 (add_f64 alpha1_old alpha2_old) (svm_C s))
                 else max 0 (sub_f64 alpha2_old alpha1_old));
            H = (if Y1 = Y2 then min (svm_C s) (add_f64 alpha1_old alpha2_old)
                 else min (svm_C s) (sub_f64 (add_f64 (svm_C s) alpha2_old) alpha1_old));
            eta = sub_f64 (add_f64 (product_matrix s ! i1 ! i1) (product_matrix s ! i2 ! i2))
                    (mul_f64 2 (product_matrix s ! i1 ! i2))
        in if eta \<le> 0 then Inr (False, s)
           else
             let alpha2_new_unc =
                   add_f64 alpha2_old (div_f64 (mul_f64 Y2 (sub_f64 E1 E2)) eta);
                 alpha2_new = clip_alpha alpha2_new_unc L H;
                 alpha1_new =
                   add_f64 alpha1_old (mul_f64 (mul_f64 Y1 Y2) (sub_f64 alpha2_old alpha2_new));
                 b1_new =
                   sub_f64
                     (sub_f64 (sub_f64 (svm_b s) E1)
                        (mul_f64 (mul_f64 Y1 (product_matrix s ! i1 ! i1))
                           (sub_f64 alpha1_new alpha1_old)))
                     (mul_f64 (mul_f64 Y2 (product_matrix s ! i2 ! i1))
                        (sub_f64 alpha2_new alpha2_old));
                 b2_new =
                   sub_f64
                     (sub_f64 (sub_f64 (svm_b s) E2)
                        (mul_f64 (mul_f64 Y1 (product_matrix s ! i1 ! i2))
                           (sub_f64 alpha1_new alpha1_old)))
                     (mul_f64 (mul_f64 Y2 (product_matrix s ! i2 ! i2))
                        (sub_f64 alpha2_new alpha2_old));
                 b_new = (if 0 < alpha1_new \<and> alpha1_new < svm_C s then b1_new
                          else if 0 < alpha2_new \<and> alpha2_new < svm_C s then b2_new
                          else div_f64 (add_f64 b1_new b2_new) 2)
             in Inr (True,
                  create_E_f64 np_dot_column
                    (s\<lparr>svm_b := b_new,
                       alpha := (alpha s)[i1 := alpha1_new, i2 := alpha2_new]\<rparr>)))"

section \<open>Predicates and quantities used in the statements\<close>

text \<open>
  The labels of the training set are \<open>+1\<close> or \<open>-1\<close>, and every multiplier lies in
  \<open>[0, C]\<close>.
\<close>

definition labels_ok :: "svm \<Rightarrow> bool" where
  "labels_ok s \<longleftrightarrow> list_all (\<lambda>y. y = 1 \<or> y = - 1) (svm_Y s)"

definition alpha_in_box :: "svm \<Rightarrow> bool" where
  "alpha_in_box s \<longleftrightarrow> list_all (\<lambda>a. 0 \<le> a \<and> a \<le> svm_C s) (alpha s)"

text \<open>Two objects that differ at most in \<open>alpha\<close>, \<open>b\<close> and \<open>E\<close>.\<close>

definition same_model :: "svm \<Rightarrow> svm \<Rightarrow> bool" where
  "same_model s s' \<longleftrightarrow>
     max_iter s' = max_iter s \<and> kernel_name s' = kernel_name s \<and> svm_C s' = svm_C s \<and>
     svm_m s' = svm_m s \<and> svm_X s' = svm_X s \<and> svm_Y s' = svm_Y s \<and>
     product_matrix s' = product_matrix s"

text \<open>
  The list \<open>j_candidates\<close> that \<open>examine_example\<close> builds for \<open>i1\<close>, and the index
  \<open>j2\<close> it picks from a non-empty list with \<open>np.argmax\<close>.
\<close>

definition j_candidates :: "svm \<Rightarrow> nat \<Rightarrow> nat list" where
  "j_candidates s i1 =
     filter (\<lambda>k. k \<noteq> i1)
       (filter (\<lambda>k. alpha s ! k > eps \<and> alpha s ! k < sub_f64 (svm_C s) eps) [0..<length (alpha s)])"

definition first_j2 :: "svm \<Rightarrow> nat \<Rightarrow> nat" where
  "first_j2 s i1 =
     j_candidates s i1 !
       argmax_list (map (\<lambda>k. \<bar>svm_E s ! k - (function_g s i1 - svm_Y s ! i1)\<bar>)
                      (j_candidates s i1))"

text \<open>
  The value of the kernel on a pair on which it raises nothing, a square matrix of size
  \<open>m\<close>, and a feature matrix whose rows all have one length.
\<close>

definition kernel_value :: "svm \<Rightarrow> vec \<Rightarrow> vec \<Rightarrow> real" where
  "kernel_value s x1 x2 = (case kernel s x1 x2 of Inl e \<Rightarrow> 0 | Inr v \<Rightarrow> v)"

definition matrix_dims :: "nat \<Rightarrow> real list list \<Rightarrow> bool" where
  "matrix_dims m M \<longleftrightarrow> length M = m \<and> list_all (\<lambda>row. length row = m) M"

definition rectangular :: "vec list \<Rightarrow> bool" where
  "rectangular xs \<longleftrightarrow> list_all (\<lambda>x. list_all (\<lambda>z. length x = length z) xs) xs"

text \<open>
  The cached errors agree with the freshly computed ones, \<open>E[i] = g(x\<^sub>i) - y\<^sub>i\<close> for
  every training index, and the Gram matrix is symmetric.
\<close>

definition cache_ok :: "svm \<Rightarrow> bool" where
  "cache_ok s \<longleftrightarrow>
     list_all (\<lambda>i. svm_E s ! i = function_g s i - svm_Y s ! i) [0..<svm_m s]"

definition symmetric_matrix :: "svm \<Rightarrow> bool" where
  "symmetric_matrix s \<longleftrightarrow>
     list_all (\<lambda>i. list_all (\<lambda>j. product_matrix s ! i ! j = product_matrix s ! j ! i)
                      [0..<svm_m s]) [0..<svm_m s]"

text \<open>
  Every order that the environment hands to the fallback scan lists indices of
  \<open>range(m)\<close> only (a shuffle of \<open>range(m)\<close> is such a list).
\<close>

definition orders_in_range :: "nat \<Rightarrow> (nat \<Rightarrow> nat \<Rightarrow> nat list) \<Rightarrow> bool" where
  "orders_in_range m rng \<longleftrightarrow> (\<forall>p i. \<forall>j \<in> set (rng p i). j < m)"

text \<open>
  The raw decision value of the specification:
  \<open>b + \<Sum>\<^sub>j alpha\<^sub>j y\<^sub>j kernel(x\<^sub>j, x)\<close> over the stored training vectors.
\<close>

definition spec_decision :: "svm \<Rightarrow> vec \<Rightarrow> real" where
  "spec_decision s x =
     svm_b s + (\<Sum>j<svm_m s. alpha s ! j * svm_Y s ! j * kernel_value s (svm_X s ! j) x)"

text \<open>
  The exact fraction of the evaluation samples on which \<open>predict\<close> returns the true
  label.
\<close>

definition agrees :: "svm \<Rightarrow> vec \<Rightarrow> real \<Rightarrow> bool" where
  "agrees s x y = (case predict s x of Inl e \<Rightarrow> False | Inr result \<Rightarrow> of_int result = y)"

definition spec_fraction :: "svm \<Rightarrow> vec list \<Rightarrow> real list \<Rightarrow> real" where
  "spec_fraction s X_test y_test =
     real (length (filter (\<lambda>i. agrees s (X_test ! i) (y_test ! i)) [0..<length X_test]))
       / real (length X_test)"


section \<open>Example states\<close>

text \<open>
  Two training points on the line with the linear kernel: the state right after
  \<open>init_args\<close>, and a state whose two cached errors are equal.
\<close>

definition two_points :: svm where
  "two_points =
     \<lparr>max_iter = 1, kernel_name = ''linear'', svm_C = 1, svm_m = 2,
      svm_X = [[0], [1]], svm_Y = [1, - 1], alpha = [0, 0], svm_b = 0,
      product_matrix = [[0, 0], [0, 1]], svm_E = [- 1, 1]\<rparr>"

definition equal_errors :: svm where
  "equal_errors =
     \<lparr>max_iter = 1, kernel_name = ''linear'', svm_C = 1, svm_m = 2,
      svm_X = [[0], [1]], svm_Y = [1, 1], alpha = [1 / 2, 1 / 2], svm_b = 0,
      product_matrix = [[0, 0], [0, 1]], svm_E = [3, 3]\<rparr>"

text \<open>
  Two points \<open>-1\<close> and \<open>1\<close> on the line with labels \<open>-1\<close> and \<open>1\<close>, the linear
  kernel, \<open>C = 1\<close> and two passes; the fallback scan visits the indices in ascending
  order. \<open>line_start\<close> is the object after \<open>init_args\<close> and \<open>line_trained\<close> the one
  after the first pair update.
\<close>

definition line_svm :: svm where
  "line_svm = init 1 2 ''linear''"

definition line_X :: "vec list" where
  "line_X = [[- 1], [1]]"

definition line_Y :: "real list" where
  "line_Y = [- 1, 1]"

definition in_order :: "nat \<Rightarrow> nat \<Rightarrow> nat list" where
  "in_order passes i = [0, 1]"

definition line_start :: svm where
  "line_start =
     \<lparr>max_iter = 2, kernel_name = ''linear'', svm_C = 1, svm_m = 2,
      svm_X = [[- 1], [1]], svm_Y = [- 1, 1], alpha = [0, 0], svm_b = 0,
      product_matrix = [[1, - 1], [- 1, 1]], svm_E = [1, - 1]\<rparr>"

definition line_trained :: svm where
  "line_trained =
     \<lparr>max_iter = 2, kernel_name = ''linear'', svm_C = 1, svm_m = 2,
      svm_X = [[- 1], [1]], svm_Y = [- 1, 1], alpha = [1 / 2, 1 / 2], svm_b = 0,
      product_matrix = [[1, - 1], [- 1, 1]], svm_E = [0, 0]\<rparr>"

text \<open>Four evaluation points, all labelled \<open>1\<close>; the second lies on the negative side.\<close>

definition line_X_test :: "vec list" where
  "line_X_test = [[1], [- 1], [2], [3]]"

definition line_y_test :: "real list" where
  "line_y_test = [1, 1, 1, 1]"

text \<open>
  Three points on the line whose first point violates its KKT condition while the other
  two multipliers are strictly between the bounds; the cached errors are the true ones.
\<close>

definition three_points :: svm where
  "three_points =
     \<lparr>max_iter = 1, kernel_name = ''linear'', svm_C = 1, svm_m = 3,
      svm_X = [[0], [1], [2]], svm_Y = [1, - 1, 1], alpha = [0, 1 / 2, 1 / 2], svm_b = 0,
      product_matrix = [[0, 0, 0], [0, 1, 2], [0, 2, 4]], svm_E = [- 1, 3 / 2, 0]\<rparr>"

text \<open>
  The object that \<open>update_alpha_pair(0, 1)\<close> leaves from \<open>three_points\<close>.
\<close>

definition three_points_next :: svm where
  "three_points_next =
     \<lparr>max_iter = 1, kernel_name = ''linear'', svm_C = 1, svm_m = 3,
      svm_X = [[0], [1], [2]], svm_Y = [1, - 1, 1], alpha = [1 / 2, 1, 1 / 2], svm_b = 1,
      product_matrix = [[0, 0, 0], [0, 1, 2], [0, 2, 4]], svm_E = [0, 2, 0]\<rparr>"

text \<open>
  Three points of which the first two coincide, so that \<open>eta = 0\<close> for the pair
  \<open>(0, 1)\<close>, and the object that \<open>update_alpha_pair(0, 2)\<close> leaves from it.
\<close>

definition twin_points :: svm where
  "twin_points =
     \<lparr>max_iter = 1, kernel_name = ''linear'', svm_C = 1, svm_m = 3,
      svm_X = [[1], [1], [0]], svm_Y = [1, - 1, - 1], alpha = [0, 1 / 2, 0], svm_b = 0,
      product_matrix = [[1, 1, 0], [1, 1, 0], [0, 0, 0]], svm_E = [- 3 / 2, 1 / 2, 1]\<rparr>"

definition twin_points_next :: svm where
  "twin_points_next =
     \<lparr>max_iter = 1, kernel_name = ''linear'', svm_C = 1, svm_m = 3,
      svm_X = [[1], [1], [0]], svm_Y = [1, - 1, - 1], alpha = [1, 1 / 2, 1], svm_b = - 1 / 4,
      product_matrix = [[1, 1, 0], [1, 1, 0], [0, 0, 0]], svm_E = [- 3 / 4, 5 / 4, 3 / 4]\<rparr>"

text \<open>The trained object with a kernel name that the kernel method does not know.\<close>

definition sigmoid_svm :: svm where
  "sigmoid_svm = line_trained\<lparr>kernel_name := ''sigmoid''\<rparr>"

text \<open>
  Three points \<open>-3\<close>, \<open>2\<close> and \<open>-1\<close> on the line with labels \<open>1\<close>, \<open>-1\<close> and \<open>-1\<close>,
  the linear kernel and the default \<open>C = 1\<close> and \<open>max_iter = 1000\<close>: the object after
  \<open>init_args\<close>, and the objects after \<open>update_alpha_pair\<close> on \<open>(0, 1)\<close>, then on
  \<open>(2, 0)\<close>, then on \<open>(1, 0)\<close>, computed in binary64. These are the first three updates
  of \<open>fit\<close> on these data when the first shuffle puts index 1 before index 2.
\<close>

definition drift_0 :: svm where
  "drift_0 =
     \<lparr>max_iter = 1000, kernel_name = ''linear'', svm_C = 1, svm_m = 3,
      svm_X = [[- 3], [2], [- 1]],
      svm_Y = [1, - 1, - 1],
      alpha = [0, 0, 0],
      svm_b = 0,
      product_matrix = [[9, - 6, 3], [- 6, 4, - 2], [3, - 2, 1]],
      svm_E = [- 1, 1, 1]\<rparr>"

definition drift_1 :: svm where
  "drift_1 =
     \<lparr>max_iter = 1000, kernel_name = ''linear'', svm_C = 1, svm_m = 3,
      svm_X = [[- 3], [2], [- 1]],
      svm_Y = [1, - 1, - 1],
      alpha = [5764607523034235 / 2 ^ 56, 5764607523034235 / 2 ^ 56, 0],
      svm_b = - 900719925474099 / 2 ^ 52,
      product_matrix = [[9, - 6, 3], [- 6, 4, - 2], [3, - 2, 1]],
      svm_E = [0, 0, 1351079888211149 / 2 ^ 50]\<rparr>"

definition drift_2 :: svm where
  "drift_2 =
     \<lparr>max_iter = 1000, kernel_name = ''linear'', svm_C = 1, svm_m = 3,
      svm_X = [[- 3], [2], [- 1]],
      svm_Y = [1, - 1, - 1],
      alpha = [6845471433603155 / 2 ^ 54, 5764607523034235 / 2 ^ 56, 1351079888211149 / 2 ^ 52],
      svm_b = - 2,
      product_matrix = [[9, - 6, 3], [- 6, 4, - 2], [3, - 2, 1]],
      svm_E = [0, - 3, 0]\<rparr>"

definition drift_3 :: svm where
  "drift_3 =
     \<lparr>max_iter = 1000, kernel_name = ''linear'', svm_C = 1, svm_m = 3,
      svm_X = [[- 3], [2], [- 1]],
      svm_Y = [1, - 1, - 1],
      alpha = [1351079888211149 / 2 ^ 52, - 1 / 2 ^ 56, 1351079888211149 / 2 ^ 52],
      svm_b = - 900719925474099 / 2 ^ 50,
      product_matrix = [[9, - 6, 3], [- 6, 4, - 2], [3, - 2, 1]],
      svm_E = [1 / 2 ^ 52, - 1, 1801439850948199 / 2 ^ 51]\<rparr>"

text \<open>
  Three copies of the point \<open>-3\<close> and the point \<open>0\<close> with labels \<open>1\<close>, \<open>-1\<close>, \<open>-1\<close>
  and \<open>-1\<close>, the linear kernel and the defaults: the object after \<open>init_args\<close>, and
  the objects after \<open>update_alpha_pair\<close> on \<open>(0, 3)\<close> and then on \<open>(1, 3)\<close>, computed
  in binary64. These are the two updates of the first two calls of \<open>examine_example\<close>
  in \<open>fit\<close> on these data, whatever the shuffles: index 3 is the only partner with
  \<open>eta > 0\<close>.
\<close>

definition residue_0 :: svm where
  "residue_0 =
     \<lparr>max_iter = 1000, kernel_name = ''linear'', svm_C = 1, svm_m = 4,
      svm_X = [[- 3], [- 3], [- 3], [0]],
      svm_Y = [1, - 1, - 1, - 1],
      alpha = [0, 0, 0, 0],
      svm_b = 0,
      product_matrix = [[9, 9, 9, 0], [9, 9, 9, 0], [9, 9, 9, 0], [0, 0, 0, 0]],
      svm_E = [- 1, 1, 1, 1]\<rparr>"

definition residue_1 :: svm where
  "residue_1 =
     \<lparr>max_iter = 1000, kernel_name = ''linear'', svm_C = 1, svm_m = 4,
      svm_X = [[- 3], [- 3], [- 3], [0]],
      svm_Y = [1, - 1, - 1, - 1],
      alpha = [2001599834386887 / 2 ^ 53, 0, 0, 2001599834386887 / 2 ^ 53],
      svm_b = - 1,
      product_matrix = [[9, 9, 9, 0], [9, 9, 9, 0], [9, 9, 9, 0], [0, 0, 0, 0]],
      svm_E = [0, 2, 2, 0]\<rparr>"

definition residue_2 :: svm where
  "residue_2 =
     \<lparr>max_iter = 1000, kernel_name = ''linear'', svm_C = 1, svm_m = 4,
      svm_X = [[- 3], [- 3], [- 3], [0]],
      svm_Y = [1, - 1, - 1, - 1],
      alpha = [2001599834386887 / 2 ^ 53, 2001599834386887 / 2 ^ 53, 0, 0],
      svm_b = - 1,
      product_matrix = [[9, 9, 9, 0], [9, 9, 9, 0], [9, 9, 9, 0], [0, 0, 0, 0]],
      svm_E = [- 2, 0, 0, 0]\<rparr>"

section \<open>Evaluating the binary64 rounding\<close>

lemma binade_numeral:
  "binade (numeral k) x e =
     (if 2 \<le> x then binade (pred_numeral k) (x / 2) (e + 1)
      else if x < 1 then binade (pred_numeral k) (x * 2) (e - 1)
      else e)"
  by (simp add: numeral_eq_Suc)

lemmas f64_eval = f64_def binade_numeral round_half_even_def pow2_def Let_def

lemmas ops_f64 = add_f64_def sub_f64_def mul_f64_def div_f64_def

text \<open>The bound \<open>C - 1e-6\<close> for \<open>C = 1\<close>, with \<open>eps\<close> folded and unfolded.\<close>

lemma threshold_one:
  "sub_f64 1 eps = 9007190247541737 / 2 ^ 53"
  "sub_f64 1 (4722366482869645 / 4722366482869645213696) = 9007190247541737 / 2 ^ 53"
  by (simp_all add: sub_f64_def eps_def f64_eval)

section \<open>Properties of the pair update\<close>

lemma update_alpha_pair_success:
  assumes "i1 \<noteq> i2" "i1 < svm_m s" "i2 < svm_m s" "0 < spec_eta s i1 i2"
  shows "update_alpha_pair s i1 i2 =
    Inr (True, create_E (s\<lparr>svm_b := spec_b_new s i1 i2,
       alpha := (alpha s)[i1 := spec_alpha1_new s i1 i2, i2 := spec_alpha2_new s i1 i2]\<rparr>))"
  using assms
  unfolding update_alpha_pair_def spec_b_new_def spec_b1_def spec_b2_def spec_alpha1_new_def
    spec_alpha2_new_def spec_alpha2_unc_def spec_L_def spec_H_def spec_eta_def Let_def
    clip_alpha_def
  by simp

lemma update_alpha_pair_failure:
  assumes "i1 = i2 \<or> (i1 < svm_m s \<and> i2 < svm_m s \<and> spec_eta s i1 i2 \<le> 0)"
  shows "update_alpha_pair s i1 i2 = Inr (False, s)"
  using assms
  unfolding update_alpha_pair_def spec_eta_def Let_def
  by auto

lemma create_E_fields [simp]:
  "alpha (create_E s) = alpha s" "svm_b (create_E s) = svm_b s"
  "svm_m (create_E s) = svm_m s" "svm_X (create_E s) = svm_X s"
  "svm_Y (create_E s) = svm_Y s" "svm_C (create_E s) = svm_C s"
  "product_matrix (create_E s) = product_matrix s"
  "kernel_name (create_E s) = kernel_name s" "max_iter (create_E s) = max_iter s"
  "length (svm_E (create_E s)) = svm_m s"
  by (simp_all add: create_E_def)

lemma create_E_twice: "svm_E (create_E (create_E s)) = svm_E (create_E s)"
  by (simp add: create_E_def)

lemma spec_L_H:
  assumes "0 \<le> alpha s ! i1" "alpha s ! i1 \<le> svm_C s" "0 \<le> alpha s ! i2" "alpha s ! i2 \<le> svm_C s"
  shows "0 \<le> spec_L s i1 i2" "spec_L s i1 i2 \<le> spec_H s i1 i2" "spec_H s i1 i2 \<le> svm_C s"
  using assms by (auto simp: spec_L_def spec_H_def)

lemma spec_alpha2_new_clip:
  assumes "spec_L s i1 i2 \<le> spec_H s i1 i2"
  shows "spec_alpha2_new s i1 i2 =
           spec_clip (spec_L s i1 i2) (spec_H s i1 i2) (spec_alpha2_unc s i1 i2)"
    and "spec_L s i1 i2 \<le> spec_alpha2_new s i1 i2"
    and "spec_alpha2_new s i1 i2 \<le> spec_H s i1 i2"
  using assms by (auto simp: spec_alpha2_new_def spec_clip_def)

text \<open>
  C1. A call of \<open>update_alpha_pair\<close> on two different indices in range with
  \<open>eta > 0\<close> returns True and commits exactly the analytic step of the specification.
  The second multiplier is the step \<open>alpha2 + y2 (E1 - E2) / eta\<close> from the cached errors,
  replaced by \<open>H\<close> when it is above \<open>H\<close> and by \<open>L\<close> when it is below \<open>L\<close>; whenever
  \<open>L \<le> H\<close>, as for multipliers in \<open>[0, C]\<close>, this is the point of \<open>[L, H]\<close> nearest to
  the step. The first multiplier moves by \<open>y1 y2\<close> times the opposite amount, the bias
  is \<open>b1\<close>, \<open>b2\<close> or their mean according to which new multiplier is strictly inside
  \<open>(0, C)\<close>, and no other multiplier changes.
\<close>

theorem update_alpha_pair_analytic_step:
  assumes "wf_state s" "i1 \<noteq> i2" "i1 < svm_m s" "i2 < svm_m s" "0 < spec_eta s i1 i2"
  shows "\<exists>s'. update_alpha_pair s i1 i2 = Inr (True, s') \<and>
           alpha s' ! i2 = spec_alpha2_new s i1 i2 \<and>
           (spec_L s i1 i2 \<le> spec_H s i1 i2 \<longrightarrow>
              alpha s' ! i2 =
                spec_clip (spec_L s i1 i2) (spec_H s i1 i2) (spec_alpha2_unc s i1 i2) \<and>
              spec_L s i1 i2 \<le> alpha s' ! i2 \<and> alpha s' ! i2 \<le> spec_H s i1 i2) \<and>
           (0 \<le> alpha s ! i1 \<and> alpha s ! i1 \<le> svm_C s \<and>
            0 \<le> alpha s ! i2 \<and> alpha s ! i2 \<le> svm_C s \<longrightarrow>
              spec_L s i1 i2 \<le> spec_H s i1 i2) \<and>
           alpha s' ! i1 = spec_alpha1_new s i1 i2 \<and>
           svm_b s' = spec_b_new s i1 i2 \<and>
           length (alpha s') = length (alpha s) \<and>
           (\<forall>k. k \<noteq> i1 \<and> k \<noteq> i2 \<longrightarrow> alpha s' ! k = alpha s ! k)"
proof -
  have len: "length (alpha s) = svm_m s"
    using assms(1) by (simp add: wf_state_def)
  define s' where "s' = create_E (s\<lparr>svm_b := spec_b_new s i1 i2,
       alpha := (alpha s)[i1 := spec_alpha1_new s i1 i2, i2 := spec_alpha2_new s i1 i2]\<rparr>)"
  have u: "update_alpha_pair s i1 i2 = Inr (True, s')"
    unfolding s'_def by (rule update_alpha_pair_success [OF assms(2-5)])
  have a2: "alpha s' ! i2 = spec_alpha2_new s i1 i2"
    and a1: "alpha s' ! i1 = spec_alpha1_new s i1 i2"
    and b: "svm_b s' = spec_b_new s i1 i2"
    and l: "length (alpha s') = length (alpha s)"
    and others: "\<forall>k. k \<noteq> i1 \<and> k \<noteq> i2 \<longrightarrow> alpha s' ! k = alpha s ! k"
    using assms(2-4) len by (simp_all add: s'_def nth_list_update)
  have clip: "spec_L s i1 i2 \<le> spec_H s i1 i2 \<longrightarrow>
              alpha s' ! i2 =
                spec_clip (spec_L s i1 i2) (spec_H s i1 i2) (spec_alpha2_unc s i1 i2) \<and>
              spec_L s i1 i2 \<le> alpha s' ! i2 \<and> alpha s' ! i2 \<le> spec_H s i1 i2"
    unfolding a2 using spec_alpha2_new_clip [of s i1 i2] by blast
  have box: "0 \<le> alpha s ! i1 \<and> alpha s ! i1 \<le> svm_C s \<and>
            0 \<le> alpha s ! i2 \<and> alpha s ! i2 \<le> svm_C s \<longrightarrow>
              spec_L s i1 i2 \<le> spec_H s i1 i2"
    using spec_L_H(2) [of s i1 i2] by blast
  show ?thesis
    by (intro exI [of _ s'] conjI) (rule u a2 clip box a1 b l others)+
qed

theorem update_alpha_pair_analytic_step_witness:
  "wf_state two_points \<and> (0::nat) \<noteq> 1 \<and> 0 < svm_m two_points \<and> 1 < svm_m two_points \<and>
   0 < spec_eta two_points 0 1 \<and>
   spec_L two_points 0 1 = 0 \<and> spec_H two_points 0 1 = 1 \<and>
   spec_alpha2_unc two_points 0 1 = 2 \<and>
   spec_L two_points 0 1 \<le> spec_H two_points 0 1 \<and>
   (\<exists>s'. update_alpha_pair two_points 0 1 = Inr (True, s') \<and>
      alpha s' ! 1 = 1 \<and> alpha s' ! 1 = spec_clip 0 1 2 \<and>
      alpha s' ! 0 = 1 \<and> svm_b s' = 1 / 2 \<and> length (alpha s') = 2)"
proof -
  have wf: "wf_state two_points"
    by (simp add: wf_state_def two_points_def)
  have ne: "(0::nat) \<noteq> 1" by simp
  have r1: "0 < svm_m two_points" and r2: "1 < svm_m two_points"
    by (simp_all add: two_points_def)
  have eta: "0 < spec_eta two_points 0 1"
    by (simp add: spec_eta_def two_points_def)
  have lh: "spec_L two_points 0 1 = 0" "spec_H two_points 0 1 = 1"
    by (simp_all add: spec_L_def spec_H_def two_points_def)
  have unc: "spec_alpha2_unc two_points 0 1 = 2"
    by (simp add: spec_alpha2_unc_def spec_eta_def two_points_def)
  have le: "spec_L two_points 0 1 \<le> spec_H two_points 0 1"
    unfolding lh by simp
  have cl: "spec_clip 0 1 2 = 1"
    by (simp add: spec_clip_def)
  have a1: "alpha two_points ! 0 + svm_Y two_points ! 0 * svm_Y two_points ! 1 *
      (alpha two_points ! 1 - 1) = 1"
    by (simp add: two_points_def)
  have len: "length (alpha two_points) = 2"
    by (simp add: two_points_def)
  from update_alpha_pair_analytic_step [OF wf ne r1 r2 eta]
  obtain s' where u: "update_alpha_pair two_points 0 1 = Inr (True, s')"
    and c: "spec_L two_points 0 1 \<le> spec_H two_points 0 1 \<longrightarrow>
        alpha s' ! 1 =
          spec_clip (spec_L two_points 0 1) (spec_H two_points 0 1)
            (spec_alpha2_unc two_points 0 1) \<and>
        spec_L two_points 0 1 \<le> alpha s' ! 1 \<and> alpha s' ! 1 \<le> spec_H two_points 0 1"
    and n2: "alpha s' ! 1 = spec_alpha2_new two_points 0 1"
    and n1: "alpha s' ! 0 = spec_alpha1_new two_points 0 1"
    and nb: "svm_b s' = spec_b_new two_points 0 1"
    and nl: "length (alpha s') = length (alpha two_points)"
    by (elim exE conjE)
  from c le have v2: "alpha s' ! 1 = spec_clip 0 1 2"
    unfolding lh unc by blast
  then have v2': "alpha s' ! 1 = 1" unfolding cl .
  from n2 v2' have a2: "spec_alpha2_new two_points 0 1 = 1" by simp
  have v1: "alpha s' ! 0 = 1"
    unfolding n1 spec_alpha1_new_def a2 by (rule a1)
  have a1': "spec_alpha1_new two_points 0 1 = 1"
    unfolding spec_alpha1_new_def a2 by (rule a1)
  have vb: "svm_b s' = 1 / 2"
    unfolding nb spec_b_new_def spec_b1_def spec_b2_def a1' a2 by (simp add: two_points_def)
  have vl: "length (alpha s') = 2"
    unfolding nl by (rule len)
  have "\<exists>s'. update_alpha_pair two_points 0 1 = Inr (True, s') \<and>
      alpha s' ! 1 = 1 \<and> alpha s' ! 1 = spec_clip 0 1 2 \<and>
      alpha s' ! 0 = 1 \<and> svm_b s' = 1 / 2 \<and> length (alpha s') = 2"
    by (intro exI [of _ s'] conjI) (rule u v2' v2 v1 vb vl)+
  then show ?thesis
    by (intro conjI) (rule wf ne r1 r2 eta lh unc le)+
qed

text \<open>
  C3. On indices in range \<open>update_alpha_pair\<close> returns False exactly when the two
  indices are equal or \<open>eta \<le> 0\<close>; a call that returns False leaves the whole object
  as it was; every other call returns True with the pair and the bias committed and the
  error cache recomputed. No test on the size of the step exists: the example after it is a
  successful call that leaves every multiplier as it was.
\<close>

theorem update_alpha_pair_reports:
  assumes "i1 < svm_m s" "i2 < svm_m s"
  shows "\<exists>ok s'. update_alpha_pair s i1 i2 = Inr (ok, s') \<and>
           (\<not> ok \<longleftrightarrow> i1 = i2 \<or> spec_eta s i1 i2 \<le> 0) \<and>
           (\<not> ok \<longrightarrow> s' = s) \<and>
           (ok \<longrightarrow>
              alpha s' = (alpha s)[i1 := spec_alpha1_new s i1 i2, i2 := spec_alpha2_new s i1 i2] \<and>
              svm_b s' = spec_b_new s i1 i2 \<and>
              svm_E s' = svm_E (create_E s'))"
proof (cases "i1 = i2 \<or> spec_eta s i1 i2 \<le> 0")
  case True
  then have "update_alpha_pair s i1 i2 = Inr (False, s)"
    using assms by (intro update_alpha_pair_failure) auto
  then show ?thesis using True by (intro exI [of _ False] exI [of _ s]) simp
next
  case False
  then have "update_alpha_pair s i1 i2 =
    Inr (True, create_E (s\<lparr>svm_b := spec_b_new s i1 i2,
       alpha := (alpha s)[i1 := spec_alpha1_new s i1 i2, i2 := spec_alpha2_new s i1 i2]\<rparr>))"
    using assms by (intro update_alpha_pair_success) auto
  then show ?thesis using False
    by (intro exI [of _ True] exI [of _ "create_E (s\<lparr>svm_b := spec_b_new s i1 i2,
       alpha := (alpha s)[i1 := spec_alpha1_new s i1 i2, i2 := spec_alpha2_new s i1 i2]\<rparr>)"])
      (simp add: create_E_twice)
qed

theorem update_alpha_pair_reports_witness:
  "0 < svm_m equal_errors \<and> 1 < svm_m equal_errors \<and>
   (\<exists>s'. update_alpha_pair equal_errors 0 1 = Inr (True, s') \<and>
      alpha s' = alpha equal_errors \<and> (0::nat) \<noteq> 1 \<and> 0 < spec_eta equal_errors 0 1) \<and>
   update_alpha_pair equal_errors 1 1 = Inr (False, equal_errors)"
proof -
  have r1: "0 < svm_m equal_errors" and r2: "1 < svm_m equal_errors"
    by (simp_all add: equal_errors_def)
  have eta: "spec_eta equal_errors 0 1 = 1" "spec_eta equal_errors 1 1 = 0"
    by (simp_all add: spec_eta_def equal_errors_def)
  have a2: "spec_alpha2_new equal_errors 0 1 = 1 / 2"
    unfolding spec_alpha2_new_def spec_alpha2_unc_def eta spec_L_def spec_H_def
    by (simp add: equal_errors_def)
  have a1: "spec_alpha1_new equal_errors 0 1 = 1 / 2"
    unfolding spec_alpha1_new_def a2 by (simp add: equal_errors_def)
  have al: "(alpha equal_errors)[0 := 1 / 2, 1 := 1 / 2] = alpha equal_errors"
    by (simp add: equal_errors_def)
  from update_alpha_pair_reports [OF r1 r2]
  obtain ok s' where u: "update_alpha_pair equal_errors 0 1 = Inr (ok, s')"
    and ok: "\<not> ok \<longleftrightarrow> (0::nat) = 1 \<or> spec_eta equal_errors 0 1 \<le> 0"
    and al': "ok \<longrightarrow> alpha s' = (alpha equal_errors)
        [0 := spec_alpha1_new equal_errors 0 1, 1 := spec_alpha2_new equal_errors 0 1]"
    by blast
  from ok have "ok" unfolding eta by simp
  with u al' have first: "update_alpha_pair equal_errors 0 1 = Inr (True, s')"
    "alpha s' = alpha equal_errors"
    unfolding a1 a2 al by simp_all
  from update_alpha_pair_reports [OF r2 r2]
  have second: "update_alpha_pair equal_errors 1 1 = Inr (False, equal_errors)"
    by auto
  show ?thesis
    using r1 r2 first second unfolding eta by simp
qed

section \<open>Invariants of the pair update\<close>

lemma update_alpha_pair_cases:
  assumes "update_alpha_pair s i1 i2 = Inr (ok, s')"
  shows "(\<not> ok \<and> s' = s) \<or>
         (ok \<and> i1 \<noteq> i2 \<and> i1 < svm_m s \<and> i2 < svm_m s \<and> 0 < spec_eta s i1 i2 \<and>
          s' = create_E (s\<lparr>svm_b := spec_b_new s i1 i2,
            alpha := (alpha s)[i1 := spec_alpha1_new s i1 i2,
                               i2 := spec_alpha2_new s i1 i2]\<rparr>))"
proof (cases "i1 = i2")
  case True
  with assms show ?thesis by (simp add: update_alpha_pair_failure)
next
  case ne: False
  show ?thesis
  proof (cases "i1 < svm_m s \<and> i2 < svm_m s")
    case False
    with ne assms show ?thesis by (simp add: update_alpha_pair_def)
  next
    case rng: True
    show ?thesis
    proof (cases "spec_eta s i1 i2 \<le> 0")
      case True
      with rng assms show ?thesis by (simp add: update_alpha_pair_failure)
    next
      case False
      with ne rng assms show ?thesis by (simp add: update_alpha_pair_success)
    qed
  qed
qed

lemma update_alpha_pair_total:
  assumes "i1 < svm_m s" "i2 < svm_m s"
  shows "\<exists>ok s'. update_alpha_pair s i1 i2 = Inr (ok, s')"
proof (cases "i1 = i2 \<or> spec_eta s i1 i2 \<le> 0")
  case True
  with assms have "update_alpha_pair s i1 i2 = Inr (False, s)"
    by (intro update_alpha_pair_failure) auto
  then show ?thesis by blast
next
  case False
  with assms show ?thesis by (auto simp: update_alpha_pair_success)
qed

lemma update_alpha_pair_same_model:
  assumes "update_alpha_pair s i1 i2 = Inr (ok, s')"
  shows "same_model s s'"
  using update_alpha_pair_cases [OF assms] by (auto simp: same_model_def)

lemma update_alpha_pair_wf:
  assumes "wf_state s" "update_alpha_pair s i1 i2 = Inr (ok, s')"
  shows "wf_state s'"
  using update_alpha_pair_cases [OF assms(2)] assms(1) by (auto simp: wf_state_def)

lemma spec_alpha2_new_box:
  assumes "0 \<le> alpha s ! i1" "alpha s ! i1 \<le> svm_C s" "0 \<le> alpha s ! i2" "alpha s ! i2 \<le> svm_C s"
  shows "0 \<le> spec_alpha2_new s i1 i2" "spec_alpha2_new s i1 i2 \<le> svm_C s"
    "spec_L s i1 i2 \<le> spec_alpha2_new s i1 i2" "spec_alpha2_new s i1 i2 \<le> spec_H s i1 i2"
proof -
  note lh = spec_L_H [OF assms]
  show l: "spec_L s i1 i2 \<le> spec_alpha2_new s i1 i2"
    and h: "spec_alpha2_new s i1 i2 \<le> spec_H s i1 i2"
    unfolding spec_alpha2_new_def using lh(2) by auto
  from l lh(1) show "0 \<le> spec_alpha2_new s i1 i2" by linarith
  from h lh(3) show "spec_alpha2_new s i1 i2 \<le> svm_C s" by linarith
qed

lemma spec_alpha1_new_box:
  assumes "0 \<le> alpha s ! i1" "alpha s ! i1 \<le> svm_C s" "0 \<le> alpha s ! i2" "alpha s ! i2 \<le> svm_C s"
    and "svm_Y s ! i1 = 1 \<or> svm_Y s ! i1 = - 1" "svm_Y s ! i2 = 1 \<or> svm_Y s ! i2 = - 1"
  shows "0 \<le> spec_alpha1_new s i1 i2" "spec_alpha1_new s i1 i2 \<le> svm_C s"
proof -
  note b = spec_alpha2_new_box(3,4) [OF assms(1-4)]
  show "0 \<le> spec_alpha1_new s i1 i2"
    using assms b by (auto simp: spec_alpha1_new_def spec_L_def spec_H_def split: if_splits)
  show "spec_alpha1_new s i1 i2 \<le> svm_C s"
    using assms b by (auto simp: spec_alpha1_new_def spec_L_def spec_H_def split: if_splits)
qed

lemma update_alpha_pair_box:
  assumes wf: "wf_state s" and lab: "labels_ok s" and box: "alpha_in_box s"
    and upd: "update_alpha_pair s i1 i2 = Inr (ok, s')"
  shows "alpha_in_box s'"
proof -
  from update_alpha_pair_cases [OF upd] show ?thesis
  proof (elim disjE conjE)
    assume "s' = s" with box show ?thesis by simp
  next
    assume r: "i1 < svm_m s" "i2 < svm_m s"
      and s': "s' = create_E (s\<lparr>svm_b := spec_b_new s i1 i2,
            alpha := (alpha s)[i1 := spec_alpha1_new s i1 i2,
                               i2 := spec_alpha2_new s i1 i2]\<rparr>)"
    from wf have len: "length (alpha s) = svm_m s" "length (svm_Y s) = svm_m s"
      by (simp_all add: wf_state_def)
    from box r len have a: "0 \<le> alpha s ! i1" "alpha s ! i1 \<le> svm_C s"
      "0 \<le> alpha s ! i2" "alpha s ! i2 \<le> svm_C s"
      by (simp_all add: alpha_in_box_def list_all_length)
    from lab r len have y: "svm_Y s ! i1 = 1 \<or> svm_Y s ! i1 = - 1"
      "svm_Y s ! i2 = 1 \<or> svm_Y s ! i2 = - 1"
      by (simp_all add: labels_ok_def list_all_length)
    note a2 = spec_alpha2_new_box(1,2) [OF a]
    note a1 = spec_alpha1_new_box [OF a y]
    have "\<forall>x \<in> set ((alpha s)[i1 := spec_alpha1_new s i1 i2, i2 := spec_alpha2_new s i1 i2]).
            0 \<le> x \<and> x \<le> svm_C s"
    proof
      fix x assume "x \<in> set ((alpha s)[i1 := spec_alpha1_new s i1 i2, i2 := spec_alpha2_new s i1 i2])"
      then have "x = spec_alpha2_new s i1 i2 \<or>
          x \<in> set ((alpha s)[i1 := spec_alpha1_new s i1 i2])"
        using set_update_subset_insert [THEN subsetD] by fastforce
      then have "x = spec_alpha2_new s i1 i2 \<or> x = spec_alpha1_new s i1 i2 \<or> x \<in> set (alpha s)"
        using set_update_subset_insert [THEN subsetD] by fastforce
      with a1 a2 box show "0 \<le> x \<and> x \<le> svm_C s"
        by (auto simp: alpha_in_box_def list_all_iff)
    qed
    with s' show ?thesis
      by (simp add: alpha_in_box_def list_all_iff)
  qed
qed

section \<open>examine\_example: the choice of the second index\<close>

lemma argmax_list_less: "xs \<noteq> [] \<Longrightarrow> argmax_list xs < length xs"
  by (induction xs rule: argmax_list.induct) (auto simp: Let_def)

lemma argmax_list_max: "i < length xs \<Longrightarrow> xs ! i \<le> xs ! argmax_list xs"
proof (induction xs arbitrary: i rule: argmax_list.induct)
  case 1
  then show ?case by simp
next
  case (2 x)
  then show ?case by simp
next
  case (3 x y ys)
  show ?case
  proof (cases i)
    case 0
    then show ?thesis by (simp add: Let_def)
  next
    case (Suc k)
    with "3.prems" have "k < length (y # ys)" by simp
    from "3.IH" [OF this] Suc show ?thesis
      by (auto simp: Let_def)
  qed
qed

lemma argmax_list_first: "i < argmax_list xs \<Longrightarrow> xs ! i < xs ! argmax_list xs"
proof (induction xs arbitrary: i rule: argmax_list.induct)
  case 1
  then show ?case by simp
next
  case (2 x)
  then show ?case by simp
next
  case (3 x y ys)
  show ?case
  proof (cases "(y # ys) ! argmax_list (y # ys) > x")
    case False
    with "3.prems" show ?thesis by (simp add: Let_def)
  next
    case True
    then have am: "argmax_list (x # y # ys) = Suc (argmax_list (y # ys))"
      by (simp add: Let_def)
    show ?thesis
    proof (cases i)
      case 0
      with True am show ?thesis by simp
    next
      case (Suc k)
      with "3.prems" am have "k < argmax_list (y # ys)" by simp
      from "3.IH" [OF this] Suc am show ?thesis by simp
    qed
  qed
qed

lemma examine_scan_preserves:
  assumes step: "\<And>s i1 i2 s'. P s \<Longrightarrow> update_alpha_pair s i1 i2 = Inr (True, s') \<Longrightarrow> P s'"
    and "P s" and "examine_scan s i1 js tried = Inr (ok, s', tried')"
  shows "P s'"
  using assms(2,3)
proof (induction js arbitrary: s tried)
  case Nil
  then show ?case by simp
next
  case (Cons j js)
  show ?case
  proof (cases "j = i1")
    case True
    with Cons show ?thesis by simp
  next
    case False
    with Cons.prems(2) obtain ok1 s1 where u: "update_alpha_pair s i1 j = Inr (ok1, s1)"
      by (auto split: sum.splits)
    show ?thesis
    proof (cases ok1)
      case True
      with u False Cons.prems(2) have "s' = s1" by simp
      with step [OF Cons.prems(1)] u True show ?thesis by simp
    next
      case f: False
      with update_alpha_pair_cases [OF u] have "s1 = s" by simp
      with u f False Cons.prems(2)
      have "examine_scan s i1 js (tried @ [(i1, j)]) = Inr (ok, s', tried')" by simp
      from Cons.IH [OF Cons.prems(1) this] show ?thesis .
    qed
  qed
qed

lemma examine_scan_total:
  assumes "\<forall>j \<in> set js. j < svm_m s" and "i1 < svm_m s"
  shows "\<exists>ok s' tried'. examine_scan s i1 js tried = Inr (ok, s', tried')"
  using assms(1)
proof (induction js arbitrary: tried)
  case Nil
  then show ?case by auto
next
  case (Cons j js)
  show ?case
  proof (cases "j = i1")
    case True
    with Cons show ?thesis by simp
  next
    case False
    from Cons.prems have "j < svm_m s" by simp
    from update_alpha_pair_total [OF assms(2) this]
    obtain ok1 s1 where u: "update_alpha_pair s i1 j = Inr (ok1, s1)" by blast
    show ?thesis
    proof (cases ok1)
      case True
      with u False show ?thesis by auto
    next
      case f: False
      with update_alpha_pair_cases [OF u] have "s1 = s" by simp
      with u f False Cons show ?thesis by simp
    qed
  qed
qed

lemma examine_example_unfold:
  assumes "i1 < svm_m s"
  shows "examine_example s shuffled i1 =
    (if kkt_violated s i1 (function_g s i1 - svm_Y s ! i1) then
       if j_candidates s i1 \<noteq> [] then
         (case update_alpha_pair s i1 (first_j2 s i1) of
            Inl e \<Rightarrow> Inl e
          | Inr (ok, s') \<Rightarrow>
              if ok then Inr (True, s', [(i1, first_j2 s i1)])
              else examine_scan s' i1 shuffled [(i1, first_j2 s i1)])
       else examine_scan s i1 shuffled []
     else Inr (False, s, []))"
proof -
  have "j_candidates s i1 \<noteq> [] \<Longrightarrow>
      filter (\<lambda>k. alpha s ! k > eps \<and> alpha s ! k < sub_f64 (svm_C s) eps) [0..<length (alpha s)] \<noteq> []"
    unfolding j_candidates_def by (metis filter.simps(1))
  then show ?thesis
    using assms
    unfolding examine_example_def Let_def np_argmax_def first_j2_def j_candidates_def [symmetric]
    by (auto split: sum.splits)
qed

lemma first_j2_in_range:
  assumes "j_candidates s i1 \<noteq> []" and "length (alpha s) = svm_m s"
  shows "first_j2 s i1 \<in> set (j_candidates s i1)" "first_j2 s i1 < svm_m s" "first_j2 s i1 \<noteq> i1"
proof -
  have "argmax_list (map (\<lambda>k. \<bar>svm_E s ! k - (function_g s i1 - svm_Y s ! i1)\<bar>)
          (j_candidates s i1)) < length (j_candidates s i1)"
    using argmax_list_less [of "map (\<lambda>k. \<bar>svm_E s ! k - (function_g s i1 - svm_Y s ! i1)\<bar>)
          (j_candidates s i1)"] assms(1) by simp
  then show m: "first_j2 s i1 \<in> set (j_candidates s i1)"
    unfolding first_j2_def by simp
  from m assms(2) show "first_j2 s i1 < svm_m s" "first_j2 s i1 \<noteq> i1"
    by (auto simp: j_candidates_def)
qed

lemma examine_example_preserves:
  assumes step: "\<And>s i1 i2 s'. P s \<Longrightarrow> update_alpha_pair s i1 i2 = Inr (True, s') \<Longrightarrow> P s'"
    and p: "P s" and ex: "examine_example s shuffled i1 = Inr (ok, s', tried')"
  shows "P s'"
proof -
  have scan: "P s' " if "P s" "examine_scan s i1 js tried = Inr (ok, s', tried')"
    for s i1 js tried ok s' tried'
    using examine_scan_preserves [where P = P] step that by blast
  from ex have r: "i1 < svm_m s"
    by (auto simp: examine_example_def split: if_splits)
  note ex' = ex [unfolded examine_example_unfold [OF r]]
  show ?thesis
  proof (cases "kkt_violated s i1 (function_g s i1 - svm_Y s ! i1)")
    case False
    with ex' p show ?thesis by simp
  next
    case viol: True
    show ?thesis
    proof (cases "j_candidates s i1 \<noteq> []")
      case False
      with viol ex' have "examine_scan s i1 shuffled [] = Inr (ok, s', tried')" by simp
      from scan [OF p this] show ?thesis .
    next
      case True
      with viol ex' obtain ok1 s1 where
        u: "update_alpha_pair s i1 (first_j2 s i1) = Inr (ok1, s1)"
        by (auto split: sum.splits)
      show ?thesis
      proof (cases ok1)
        case True
        with u viol \<open>j_candidates s i1 \<noteq> []\<close> ex' have "s' = s1" by simp
        with step [OF p] u True show ?thesis by simp
      next
        case f: False
        with update_alpha_pair_cases [OF u] have "s1 = s" by simp
        with f u viol True ex'
        have "examine_scan s i1 shuffled [(i1, first_j2 s i1)] = Inr (ok, s', tried')" by simp
        from scan [OF p this] show ?thesis .
      qed
    qed
  qed
qed

lemma examine_example_total:
  assumes r: "i1 < svm_m s" and len: "length (alpha s) = svm_m s"
    and sh: "\<forall>j \<in> set shuffled. j < svm_m s"
  shows "\<exists>ok s' tried'. examine_example s shuffled i1 = Inr (ok, s', tried')"
proof (cases "kkt_violated s i1 (function_g s i1 - svm_Y s ! i1)")
  case False
  then show ?thesis by (auto simp: examine_example_unfold [OF r])
next
  case viol: True
  show ?thesis
  proof (cases "j_candidates s i1 \<noteq> []")
    case False
    with viol examine_scan_total [OF sh r, of "[]"] show ?thesis
      by (simp add: examine_example_unfold [OF r])
  next
    case True
    from update_alpha_pair_total [OF r first_j2_in_range(2) [OF True len]]
    obtain ok1 s1 where u: "update_alpha_pair s i1 (first_j2 s i1) = Inr (ok1, s1)"
      by blast
    show ?thesis
    proof (cases ok1)
      case True
      with u viol \<open>j_candidates s i1 \<noteq> []\<close> show ?thesis
        by (auto simp: examine_example_unfold [OF r])
    next
      case f: False
      with update_alpha_pair_cases [OF u] have "s1 = s" by simp
      with f u viol True examine_scan_total [OF sh r, of "[(i1, first_j2 s i1)]"]
      show ?thesis
        by (simp add: examine_example_unfold [OF r])
    qed
  qed
qed

section \<open>The loops of fit\<close>

lemma examine_all_calls:
  "examine_all orders idxs s calls =
     (case examine_all orders idxs s [] of
        Inl e \<Rightarrow> Inl e
      | Inr (s', cs) \<Rightarrow> Inr (s', calls @ cs))"
proof (induction idxs arbitrary: s calls)
  case Nil
  then show ?case by simp
next
  case (Cons i idxs)
  show ?case
  proof (cases "examine_example s (orders i) i")
    case (Inl e)
    then show ?thesis by simp
  next
    case (Inr r)
    obtain ok s1 tried where r: "r = (ok, s1, tried)" by (cases r)
    have a: "examine_all orders (i # idxs) s calls = examine_all orders idxs s1 (calls @ [(i, s)])"
      and b: "examine_all orders (i # idxs) s [] = examine_all orders idxs s1 [(i, s)]"
      using Inr r by simp_all
    show ?thesis
      unfolding a b
      by (subst Cons.IH, subst (2) Cons.IH) (auto split: sum.splits)
  qed
qed

lemma examine_all_run:
  assumes step: "\<And>s i1 i2 s'. P s \<Longrightarrow> update_alpha_pair s i1 i2 = Inr (True, s') \<Longrightarrow> P s'"
    and inv: "\<And>s. P s \<Longrightarrow> length (alpha s) = svm_m s \<and> svm_m s = m"
    and ord: "\<forall>i. \<forall>j \<in> set (orders i). j < m"
    and "P s" and "\<forall>i \<in> set idxs. i < m"
  shows "\<exists>s' cs. examine_all orders idxs s [] = Inr (s', cs) \<and> P s' \<and>
           map fst cs = idxs \<and> (\<forall>c \<in> set cs. P (snd c))"
  using assms(4,5)
proof (induction idxs arbitrary: s)
  case Nil
  then show ?case by simp
next
  case (Cons i idxs)
  from inv [OF Cons.prems(1)] have len: "length (alpha s) = svm_m s" and m: "svm_m s = m"
    by simp_all
  from Cons.prems(2) m have r: "i < svm_m s" by simp
  from ord m have sh: "\<forall>j \<in> set (orders i). j < svm_m s" by simp
  from examine_example_total [OF r len sh]
  obtain ok s1 tried where ex: "examine_example s (orders i) i = Inr (ok, s1, tried)" by blast
  have p1: "P s1"
    using examine_example_preserves [where P = P] step Cons.prems(1) ex by blast
  from Cons.prems(2) have "\<forall>i \<in> set idxs. i < m" by simp
  from Cons.IH [OF p1 this]
  obtain s' cs where run: "examine_all orders idxs s1 [] = Inr (s', cs)" and p': "P s'"
    and fst: "map fst cs = idxs" and all: "\<forall>c \<in> set cs. P (snd c)"
    by blast
  have "examine_all orders (i # idxs) s [] = examine_all orders idxs s1 [(i, s)]"
    using ex by simp
  also have "\<dots> = Inr (s', (i, s) # cs)"
    by (subst examine_all_calls) (simp add: run)
  finally have "examine_all orders (i # idxs) s [] = Inr (s', (i, s) # cs)" .
  with p' fst all Cons.prems(1) show ?case by simp
qed


section \<open>The kernel and the Gram matrix\<close>

lemma dot_commute: "dot x1 x2 = dot x2 x1"
proof -
  have "sum_list (map2 (*) x1 x2) = sum_list (map2 (*) x2 (x1 :: real list))"
  proof (induction x1 arbitrary: x2)
    case Nil
    then show ?case by simp
  next
    case (Cons a x1)
    then show ?case by (cases x2) (simp_all add: mult.commute)
  qed
  then show ?thesis by (simp add: dot_def)
qed

lemma np_dot_commute: "np_dot x1 x2 = np_dot x2 x1"
  by (auto simp: np_dot_def dot_commute)

lemma squares_map2_commute:
  "sum_list (map (\<lambda>v. v ^ 2) (map2 (-) x1 x2)) = sum_list (map (\<lambda>v. v ^ 2) (map2 (-) x2 (x1 :: real list)))"
proof (induction x1 arbitrary: x2)
  case Nil
  then show ?case by simp
next
  case (Cons a x1)
  then show ?case by (cases x2) (simp_all add: power2_commute)
qed

lemma squares_broadcast_commute:
  "sum_list (map (\<lambda>v. v ^ 2) (map (\<lambda>v. (c :: real) - v) xs)) =
   sum_list (map (\<lambda>v. v ^ 2) (map (\<lambda>u. u - c) xs))"
  by (induction xs) (simp_all add: power2_commute)

lemma kernel_symmetric: "kernel s x1 x2 = kernel s x2 x1"
proof -
  have sub: "(case np_sub x1 x2 of Inl e \<Rightarrow> Inl e
         | Inr d \<Rightarrow> Inr (exp (- 1 * sum_list (map (\<lambda>v. v ^ 2) d)))) =
        (case np_sub x2 x1 of Inl e \<Rightarrow> (Inl e :: error + real)
         | Inr d \<Rightarrow> Inr (exp (- 1 * sum_list (map (\<lambda>v. v ^ 2) d))))"
    using squares_map2_commute [of x1 x2] squares_broadcast_commute [of "hd x1" x2]
      squares_broadcast_commute [of "hd x2" x1]
    by (auto simp: np_sub_def)
  show ?thesis
    unfolding kernel_def np_dot_commute [of x1 x2] sub ..
qed

lemma kernel_total:
  assumes "length x1 = length x2"
  shows "kernel s x1 x2 = Inr (kernel_value s x1 x2)"
  using assms by (simp add: kernel_value_def kernel_def np_dot_def np_sub_def)

lemma symmetric_store:
  fixes M :: "real list list" and v :: real
  assumes d: "matrix_dims m M" and i: "i < m" and j: "j < m"
  defines "M1 \<equiv> M[i := (M ! i)[j := v]]"
  defines "M2 \<equiv> M1[j := (M1 ! j)[i := M1 ! i ! j]]"
  shows "matrix_dims m M2"
    and "\<And>p q. p < m \<Longrightarrow> q < m \<Longrightarrow>
           M2 ! p ! q = (if (p = i \<and> q = j) \<or> (p = j \<and> q = i) then v else M ! p ! q)"
proof -
  from d have len: "length M = m" and rows: "\<And>p. p < m \<Longrightarrow> length (M ! p) = m"
    by (simp_all add: matrix_dims_def list_all_length)
  have len1: "length M1 = m" and rows1: "\<And>p. p < m \<Longrightarrow> length (M1 ! p) = m"
    using len rows i by (simp_all add: M1_def nth_list_update)
  have e1: "M1 ! p ! q = (if p = i \<and> q = j then v else M ! p ! q)" if "p < m" "q < m" for p q
    using that len rows i j by (simp add: M1_def nth_list_update)
  have len2: "length M2 = m" and rows2: "\<And>p. p < m \<Longrightarrow> length (M2 ! p) = m"
    using len1 rows1 j by (simp_all add: M2_def nth_list_update)
  from len2 rows2 show "matrix_dims m M2"
    by (simp add: matrix_dims_def list_all_length)
  fix p q assume pq: "p < m" "q < m"
  have a: "M2 ! p ! q = (if p = j \<and> q = i then M1 ! i ! j else M1 ! p ! q)"
    using pq len1 rows1 i j by (simp add: M2_def nth_list_update)
  have b: "M1 ! i ! j = v"
    using e1 [OF i j] by simp
  have c: "M1 ! p ! q = (if p = i \<and> q = j then v else M ! p ! q)"
    using e1 [OF pq] .
  show "M2 ! p ! q = (if (p = i \<and> q = j) \<or> (p = j \<and> q = i) then v else M ! p ! q)"
    using a b c by (cases "p = i"; cases "q = j"; cases "p = j"; cases "q = i") simp_all
qed

lemma product_matrix_row_run:
  assumes i: "i < svm_m s"
    and tot: "\<forall>j \<in> set js. j < svm_m s \<and>
                (\<exists>v. kernel s (svm_X s ! i) (svm_X s ! j) = Inr v)"
    and d: "matrix_dims (svm_m s) M"
  shows "\<exists>M'. product_matrix_row s i js M = Inr M' \<and> matrix_dims (svm_m s) M' \<and>
           (\<forall>p < svm_m s. \<forall>q < svm_m s.
              M' ! p ! q =
                (if p = i \<and> q \<in> set js then kernel_value s (svm_X s ! i) (svm_X s ! q)
                 else if q = i \<and> p \<in> set js then kernel_value s (svm_X s ! i) (svm_X s ! p)
                 else M ! p ! q))"
  using tot d
proof (induction js arbitrary: M)
  case Nil
  then show ?case by simp
next
  case (Cons j js)
  from Cons.prems(1) obtain v where j: "j < svm_m s"
    and kv: "kernel s (svm_X s ! i) (svm_X s ! j) = Inr v"
    by auto
  then have v: "v = kernel_value s (svm_X s ! i) (svm_X s ! j)"
    by (simp add: kernel_value_def)
  define M1 where "M1 = M[i := (M ! i)[j := v]]"
  define M2 where "M2 = M1[j := (M1 ! j)[i := M1 ! i ! j]]"
  note st = symmetric_store [OF Cons.prems(2) i j, where v = v, folded M1_def M2_def]
  from Cons.prems(1) have tot': "\<forall>j \<in> set js. j < svm_m s \<and>
                (\<exists>v. kernel s (svm_X s ! i) (svm_X s ! j) = Inr v)"
    by simp
  from Cons.IH [OF tot' st(1)]
  obtain M' where run: "product_matrix_row s i js M2 = Inr M'"
    and d': "matrix_dims (svm_m s) M'"
    and e': "\<forall>p < svm_m s. \<forall>q < svm_m s.
              M' ! p ! q =
                (if p = i \<and> q \<in> set js then kernel_value s (svm_X s ! i) (svm_X s ! q)
                 else if q = i \<and> p \<in> set js then kernel_value s (svm_X s ! i) (svm_X s ! p)
                 else M2 ! p ! q)"
    by blast
  have "product_matrix_row s i (j # js) M = Inr M'"
    using kv run by (simp add: Let_def M1_def M2_def)
  moreover have "M' ! p ! q =
                (if p = i \<and> q \<in> set (j # js) then kernel_value s (svm_X s ! i) (svm_X s ! q)
                 else if q = i \<and> p \<in> set (j # js)
                   then kernel_value s (svm_X s ! i) (svm_X s ! p)
                 else M ! p ! q)" if "p < svm_m s" "q < svm_m s" for p q
  proof -
    have x: "M' ! p ! q =
                (if p = i \<and> q \<in> set js then kernel_value s (svm_X s ! i) (svm_X s ! q)
                 else if q = i \<and> p \<in> set js then kernel_value s (svm_X s ! i) (svm_X s ! p)
                 else M2 ! p ! q)"
      using e' that by blast
    have y: "M2 ! p ! q = (if (p = i \<and> q = j) \<or> (p = j \<and> q = i)
        then kernel_value s (svm_X s ! i) (svm_X s ! j) else M ! p ! q)"
      using st(2) [OF that] v by simp
    show ?thesis
      using x y by (cases "p = i"; cases "q = i"; cases "p = j"; cases "q = j") simp_all
  qed
  ultimately show ?case using d' by blast
qed

lemma product_matrix_rows_run:
  assumes tot: "\<forall>i < svm_m s. \<forall>j < svm_m s. \<exists>v. kernel s (svm_X s ! i) (svm_X s ! j) = Inr v"
    and "matrix_dims (svm_m s) M" and "a \<le> svm_m s"
    and "\<forall>p < svm_m s. \<forall>q < svm_m s. p < a \<or> q < a \<longrightarrow>
           M ! p ! q = kernel_value s (svm_X s ! min p q) (svm_X s ! max p q)"
  shows "\<exists>M'. product_matrix_rows s [a..<svm_m s] M = Inr M' \<and> matrix_dims (svm_m s) M' \<and>
           (\<forall>p < svm_m s. \<forall>q < svm_m s.
              M' ! p ! q = kernel_value s (svm_X s ! min p q) (svm_X s ! max p q))"
  using assms(2-4)
proof (induction k \<equiv> "svm_m s - a" arbitrary: a M)
  case 0
  then have "a = svm_m s" by simp
  with "0.prems" show ?case by simp
next
  case (Suc k)
  then have a: "a < svm_m s" by simp
  then have upt: "[a..<svm_m s] = a # [Suc a..<svm_m s]"
    by (simp add: upt_conv_Cons)
  have tot': "\<forall>j \<in> set [a..<svm_m s]. j < svm_m s \<and>
                (\<exists>v. kernel s (svm_X s ! a) (svm_X s ! j) = Inr v)"
    using tot a by simp
  from product_matrix_row_run [OF a tot' Suc.prems(1)]
  obtain M1 where run1: "product_matrix_row s a [a..<svm_m s] M = Inr M1"
    and d1: "matrix_dims (svm_m s) M1"
    and e1: "\<forall>p < svm_m s. \<forall>q < svm_m s.
              M1 ! p ! q =
                (if p = a \<and> q \<in> set [a..<svm_m s]
                   then kernel_value s (svm_X s ! a) (svm_X s ! q)
                 else if q = a \<and> p \<in> set [a..<svm_m s]
                   then kernel_value s (svm_X s ! a) (svm_X s ! p)
                 else M ! p ! q)"
    by blast
  have done1: "\<forall>p < svm_m s. \<forall>q < svm_m s. p < Suc a \<or> q < Suc a \<longrightarrow>
           M1 ! p ! q = kernel_value s (svm_X s ! min p q) (svm_X s ! max p q)"
  proof (intro allI impI)
    fix p q assume pq: "p < svm_m s" "q < svm_m s" and lt: "p < Suc a \<or> q < Suc a"
    from e1 pq have e: "M1 ! p ! q =
                (if p = a \<and> q \<in> set [a..<svm_m s]
                   then kernel_value s (svm_X s ! a) (svm_X s ! q)
                 else if q = a \<and> p \<in> set [a..<svm_m s]
                   then kernel_value s (svm_X s ! a) (svm_X s ! p)
                 else M ! p ! q)"
      by blast
    consider (row) "p = a" "a \<le> q" | (col) "q = a" "a \<le> p" | (old) "p < a \<or> q < a"
      using lt by linarith
    then show "M1 ! p ! q = kernel_value s (svm_X s ! min p q) (svm_X s ! max p q)"
    proof cases
      case row
      with e pq show ?thesis by (simp add: min_def max_def)
    next
      case col
      with e pq show ?thesis by (auto simp: min_def max_def)
    next
      case old
      with Suc.prems(3) pq
      have "M ! p ! q = kernel_value s (svm_X s ! min p q) (svm_X s ! max p q)" by blast
      moreover from old have "\<not> (p = a \<and> q \<in> set [a..<svm_m s])"
        "\<not> (q = a \<and> p \<in> set [a..<svm_m s])" by auto
      ultimately show ?thesis using e by simp
    qed
  qed
  have k: "k = svm_m s - Suc a" using Suc.hyps(2) by simp
  from a have le: "Suc a \<le> svm_m s" by simp
  from Suc.hyps(1) [OF k d1 le done1]
  obtain M' where "product_matrix_rows s [Suc a..<svm_m s] M1 = Inr M'"
    and "matrix_dims (svm_m s) M'"
    and "\<forall>p < svm_m s. \<forall>q < svm_m s.
              M' ! p ! q = kernel_value s (svm_X s ! min p q) (svm_X s ! max p q)"
    by blast
  moreover have "product_matrix_rows s [a..<svm_m s] M =
      (case product_matrix_row s a [a..<svm_m s] M of
         Inl e \<Rightarrow> Inl e
       | Inr M1 \<Rightarrow> product_matrix_rows s [Suc a..<svm_m s] M1)"
    by (subst upt) simp
  ultimately show ?case
    using run1 by auto
qed

lemma computer_product_matrix_run:
  assumes tot: "\<forall>i < svm_m s. \<forall>j < svm_m s. \<exists>v. kernel s (svm_X s ! i) (svm_X s ! j) = Inr v"
  shows "\<exists>M. computer_product_matrix s = Inr (s\<lparr>product_matrix := M\<rparr>) \<and>
           matrix_dims (svm_m s) M \<and>
           (\<forall>p < svm_m s. \<forall>q < svm_m s.
              M ! p ! q = kernel_value s (svm_X s ! min p q) (svm_X s ! max p q))"
proof -
  have d: "matrix_dims (svm_m s) (replicate (svm_m s) (replicate (svm_m s) 0))"
    by (simp add: matrix_dims_def list_all_length)
  from product_matrix_rows_run [OF tot d, of 0]
  obtain M where "product_matrix_rows s [0..<svm_m s]
        (replicate (svm_m s) (replicate (svm_m s) 0)) = Inr M"
    and "matrix_dims (svm_m s) M"
    and "\<forall>p < svm_m s. \<forall>q < svm_m s.
              M ! p ! q = kernel_value s (svm_X s ! min p q) (svm_X s ! max p q)"
    by auto
  then show ?thesis
    by (auto simp: computer_product_matrix_def)
qed

lemma rectangular_total:
  assumes "rectangular (svm_X s)" and "length (svm_X s) = svm_m s"
  shows "\<forall>i < svm_m s. \<forall>j < svm_m s.
           kernel s (svm_X s ! i) (svm_X s ! j) =
             Inr (kernel_value s (svm_X s ! i) (svm_X s ! j))"
  using assms by (auto simp: rectangular_def list_all_length intro!: kernel_total)

lemma kernel_value_symmetric: "kernel_value s x1 x2 = kernel_value s x2 x1"
  unfolding kernel_value_def kernel_symmetric [of s x1 x2] ..

lemma init_args_run:
  assumes "rectangular features"
  shows "\<exists>M. init_args s features labels =
           Inr (s\<lparr>svm_m := length features, svm_X := features, svm_Y := labels,
                  alpha := replicate (length features) 0, svm_b := 0,
                  product_matrix := M, svm_E := map (\<lambda>y. 0 - y) labels\<rparr>) \<and>
           matrix_dims (length features) M \<and>
           (\<forall>p < length features. \<forall>q < length features.
              M ! p ! q = kernel_value s (features ! p) (features ! q))"
proof -
  define s1 where "s1 = s\<lparr>svm_m := length features, svm_X := features, svm_Y := labels,
                alpha := replicate (length features) 0, svm_b := 0\<rparr>"
  have f: "svm_m s1 = length features" "svm_X s1 = features"
    by (simp_all add: s1_def)
  have kn: "kernel s1 = kernel s"
    by (intro ext) (simp add: kernel_def s1_def)
  then have kv: "kernel_value s1 = kernel_value s"
    by (intro ext) (simp add: kernel_value_def)
  have "\<forall>i < svm_m s1. \<forall>j < svm_m s1. \<exists>v. kernel s1 (svm_X s1 ! i) (svm_X s1 ! j) = Inr v"
    using rectangular_total [of s1] assms f by simp
  from computer_product_matrix_run [OF this]
  obtain M where run: "computer_product_matrix s1 = Inr (s1\<lparr>product_matrix := M\<rparr>)"
    and d: "matrix_dims (length features) M"
    and e: "\<forall>p < length features. \<forall>q < length features.
              M ! p ! q = kernel_value s (features ! min p q) (features ! max p q)"
    unfolding f kv by blast
  have "M ! p ! q = kernel_value s (features ! p) (features ! q)"
    if "p < length features" "q < length features" for p q
    using e that kernel_value_symmetric [of s "features ! q" "features ! p"]
    by (cases "p \<le> q") (simp_all add: min_def max_def)
  moreover have "init_args s features labels =
           Inr (s\<lparr>svm_m := length features, svm_X := features, svm_Y := labels,
                  alpha := replicate (length features) 0, svm_b := 0,
                  product_matrix := M, svm_E := map (\<lambda>y. 0 - y) labels\<rparr>)"
    using run by (simp add: init_args_def s1_def)
  ultimately show ?thesis using d by blast
qed

section \<open>predict, decision\_function and score\<close>

lemma decision_loop_run:
  assumes "\<forall>i \<in> set idxs. \<exists>k. kernel s x (svm_X s ! i) = Inr k"
  shows "decision_loop s x idxs r =
           Inr (r + sum_list (map (\<lambda>i. alpha s ! i * svm_Y s ! i *
                                      kernel_value s (svm_X s ! i) x) idxs))"
  using assms
proof (induction idxs arbitrary: r)
  case Nil
  then show ?case by simp
next
  case (Cons i idxs)
  from Cons.prems obtain k where k: "kernel s x (svm_X s ! i) = Inr k" by auto
  then have "kernel_value s (svm_X s ! i) x = k"
    by (simp add: kernel_value_def kernel_symmetric [of s "svm_X s ! i" x])
  with Cons k show ?case by (simp add: algebra_simps)
qed

lemma decision_loop_spec:
  assumes "\<forall>j < svm_m s. \<exists>k. kernel s x (svm_X s ! j) = Inr k"
  shows "decision_loop s x [0..<svm_m s] (svm_b s) = Inr (spec_decision s x)"
proof -
  have "sum_list (map (\<lambda>i. alpha s ! i * svm_Y s ! i * kernel_value s (svm_X s ! i) x)
          [0..<svm_m s]) =
        (\<Sum>j<svm_m s. alpha s ! j * svm_Y s ! j * kernel_value s (svm_X s ! j) x)"
    by (simp add: interv_sum_list_conv_sum_set_nat atLeast0LessThan)
  with decision_loop_run [of "[0..<svm_m s]" s x "svm_b s"] assms show ?thesis
    by (simp add: spec_decision_def)
qed

lemma predict_via_decision_function:
  "predict s x =
     (case decision_function s (Array1 x) of
        Inl e \<Rightarrow> Inl e
      | Inr rs \<Rightarrow> Inr (if hd rs > 0 then 1 else - 1))"
  by (cases "decision_loop s x [0..<svm_m s] (svm_b s)") (simp_all add: predict_def)

lemma predict_total:
  assumes "list_all (\<lambda>z. length z = length x) (svm_X s)" and "length (svm_X s) = svm_m s"
  shows "predict s x = Inr (if spec_decision s x > 0 then 1 else - 1)"
proof -
  have "\<forall>j < svm_m s. \<exists>k. kernel s x (svm_X s ! j) = Inr k"
    using assms kernel_total [of x _ s] by (auto simp: list_all_length)
  from decision_loop_spec [OF this] show ?thesis
    by (simp add: predict_def)
qed

lemma score_loop_count:
  assumes "score_loop s X_test y_test idxs right_count = Inr n"
  shows "n = right_count + length (filter (\<lambda>i. agrees s (X_test ! i) (y_test ! i)) idxs)"
  using assms
proof (induction idxs arbitrary: right_count)
  case Nil
  then show ?case by simp
next
  case (Cons i idxs)
  from Cons.prems obtain result where p: "predict s (X_test ! i) = Inr result"
    by (auto split: sum.splits)
  with Cons.prems have r: "i < length y_test" by (auto split: if_splits)
  show ?case
  proof (cases "of_int result = y_test ! i")
    case True
    with p r Cons.prems
    have "score_loop s X_test y_test idxs (right_count + 1) = Inr n" by simp
    from Cons.IH [OF this] True p show ?thesis by (simp add: agrees_def)
  next
    case False
    with p r Cons.prems
    have "score_loop s X_test y_test idxs right_count = Inr n" by simp
    from Cons.IH [OF this] False p show ?thesis by (simp add: agrees_def)
  qed
qed

lemma score_loop_total:
  assumes "\<forall>i \<in> set idxs. i < length y_test \<and> (\<exists>r. predict s (X_test ! i) = Inr r)"
  shows "\<exists>n. score_loop s X_test y_test idxs right_count = Inr n"
  using assms
proof (induction idxs arbitrary: right_count)
  case Nil
  then show ?case by simp
next
  case (Cons i idxs)
  then show ?case by (auto split: sum.splits)
qed

lemma score_result:
  assumes "score s X_test y_test = Inr r"
  shows "X_test \<noteq> []" "r = spec_fraction s X_test y_test" "0 \<le> r" "r \<le> 1"
proof -
  from assms obtain n where n: "score_loop s X_test y_test [0..<length X_test] 0 = Inr n"
    and ne: "length X_test \<noteq> 0" and r: "r = real n / real (length X_test)"
    by (auto simp: score_def split: sum.splits if_splits)
  from ne show "X_test \<noteq> []" by simp
  from score_loop_count [OF n]
  have c: "n = length (filter (\<lambda>i. agrees s (X_test ! i) (y_test ! i)) [0..<length X_test])"
    by simp
  with r show "r = spec_fraction s X_test y_test"
    by (simp add: spec_fraction_def)
  from r show "0 \<le> r" by simp
  have "n \<le> length [0..<length X_test]"
    unfolding c by (rule length_filter_le)
  then have "real n \<le> real (length X_test)" by simp
  with r ne show "r \<le> 1" by (simp add: divide_le_eq_1)
qed

lemma score_run:
  assumes ne: "X_test \<noteq> []" and len: "length X_test \<le> length y_test"
    and dims: "\<forall>x \<in> set X_test. list_all (\<lambda>z. length z = length x) (svm_X s)"
    and m: "length (svm_X s) = svm_m s"
  shows "score s X_test y_test = Inr (spec_fraction s X_test y_test)"
proof -
  have "\<forall>i \<in> set [0..<length X_test].
          i < length y_test \<and> (\<exists>r. predict s (X_test ! i) = Inr r)"
    using len dims predict_total [OF _ m] by (auto simp: )
  from score_loop_total [OF this, of 0]
  obtain n where n: "score_loop s X_test y_test [0..<length X_test] 0 = Inr n" by blast
  with ne have "score s X_test y_test = Inr (real n / real (length X_test))"
    by (simp add: score_def)
  from score_result(2) [OF this] this show ?thesis by simp
qed

section \<open>The error cache\<close>

lemma column_row:
  assumes "wf_state s" "symmetric_matrix s" "i < svm_m s"
  shows "column (product_matrix s) i = product_matrix s ! i"
proof (rule nth_equalityI)
  from assms show "length (column (product_matrix s) i) = length (product_matrix s ! i)"
    by (simp add: column_def wf_state_def list_all_length)
next
  fix j assume "j < length (column (product_matrix s) i)"
  with assms have j: "j < svm_m s" by (simp add: column_def wf_state_def)
  with assms have "product_matrix s ! j ! i = product_matrix s ! i ! j"
    by (simp add: symmetric_matrix_def list_all_length)
  with j assms show "column (product_matrix s) i ! j = product_matrix s ! i ! j"
    by (simp add: column_def wf_state_def)
qed

lemma create_E_entry:
  assumes "i < svm_m s"
  shows "svm_E (create_E s) ! i =
           dot (map2 (*) (alpha s) (svm_Y s)) (column (product_matrix s) i)
           + svm_b s - svm_Y s ! i"
  using assms by (simp add: create_E_def)

lemma create_E_cache_ok:
  assumes "wf_state s" "symmetric_matrix s"
  shows "cache_ok (create_E s)"
  using assms column_row [OF assms]
  by (simp add: cache_ok_def list_all_length create_E_entry function_g_def)

lemma update_alpha_pair_cache_ok:
  assumes "wf_state s" "symmetric_matrix s" "cache_ok s"
    and "update_alpha_pair s i1 i2 = Inr (ok, s')"
  shows "cache_ok s'"
proof -
  from update_alpha_pair_cases [OF assms(4)] show ?thesis
  proof (elim disjE conjE)
    assume "s' = s" with assms(3) show ?thesis by simp
  next
    assume s': "s' = create_E (s\<lparr>svm_b := spec_b_new s i1 i2,
            alpha := (alpha s)[i1 := spec_alpha1_new s i1 i2,
                               i2 := spec_alpha2_new s i1 i2]\<rparr>)"
    have "wf_state (s\<lparr>svm_b := spec_b_new s i1 i2,
            alpha := (alpha s)[i1 := spec_alpha1_new s i1 i2,
                               i2 := spec_alpha2_new s i1 i2]\<rparr>)"
      using assms(1) by (simp add: wf_state_def)
    moreover have "symmetric_matrix (s\<lparr>svm_b := spec_b_new s i1 i2,
            alpha := (alpha s)[i1 := spec_alpha1_new s i1 i2,
                               i2 := spec_alpha2_new s i1 i2]\<rparr>)"
      using assms(2) by (simp add: symmetric_matrix_def)
    ultimately show ?thesis
      unfolding s' by (rule create_E_cache_ok)
  qed
qed

lemma update_alpha_pair_symmetric:
  assumes "symmetric_matrix s" "update_alpha_pair s i1 i2 = Inr (ok, s')"
  shows "symmetric_matrix s'"
  using update_alpha_pair_same_model [OF assms(2)] assms(1)
  by (simp add: symmetric_matrix_def same_model_def)

lemma update_alpha_pair_labels:
  assumes "labels_ok s" "update_alpha_pair s i1 i2 = Inr (ok, s')"
  shows "labels_ok s'"
  using update_alpha_pair_same_model [OF assms(2)] assms(1)
  by (simp add: labels_ok_def same_model_def)

lemma same_model_trans: "same_model a b \<Longrightarrow> same_model b c \<Longrightarrow> same_model a c"
  by (simp add: same_model_def)

lemma dot_zero_left: "dot (map2 (*) (replicate n 0) ys) row = 0"
proof -
  have "map2 (*) (replicate n (0::real)) ys = replicate (min n (length ys)) 0"
    by (induction n arbitrary: ys) (auto simp: Suc_length_conv split: list.splits nat.splits
        simp: zip_Cons1 min_def)
  moreover have "sum_list (map2 (*) (replicate k (0::real)) row) = 0" for k
  proof (induction k arbitrary: row)
    case 0
    then show ?case by simp
  next
    case (Suc k)
    then show ?case by (cases row) simp_all
  qed
  ultimately show ?thesis by (simp add: dot_def)
qed

lemma examine_scan_tried:
  assumes "examine_scan s i1 js tried = Inr (ok, s', tried')"
  shows "\<exists>rest. tried' = tried @ rest"
  using assms
proof (induction js arbitrary: s tried)
  case Nil
  then show ?case by simp
next
  case (Cons j js)
  show ?case
  proof (cases "j = i1")
    case True
    with Cons show ?thesis by simp
  next
    case False
    with Cons.prems obtain ok1 s1 where u: "update_alpha_pair s i1 j = Inr (ok1, s1)"
      by (auto split: sum.splits)
    show ?thesis
    proof (cases ok1)
      case True
      with u False Cons.prems show ?thesis by auto
    next
      case f: False
      with u False Cons.prems
      have "examine_scan s1 i1 js (tried @ [(i1, j)]) = Inr (ok, s', tried')" by simp
      from Cons.IH [OF this] show ?thesis by auto
    qed
  qed
qed

lemma fit_passes_preserves:
  assumes step: "\<And>s i1 i2 s'. P s \<Longrightarrow> update_alpha_pair s i1 i2 = Inr (True, s') \<Longrightarrow> P s'"
    and inv: "\<And>s. P s \<Longrightarrow> length (alpha s) = svm_m s \<and> svm_m s = m"
    and ord: "\<forall>p i. \<forall>j \<in> set (rng p i). j < m"
    and "P s"
    and "fit_passes rng X_test y_test ps s accs calls = Inr (s', accs', calls')"
  shows "P s' \<and> (\<exists>cs. calls' = calls @ cs \<and> (\<forall>c \<in> set cs. P (snd c) \<and> fst c < m))"
  using assms(4,5)
proof (induction ps arbitrary: s accs calls)
  case Nil
  then show ?case by simp
next
  case (Cons p ps)
  from inv [OF Cons.prems(1)] have m: "svm_m s = m" by simp
  have "\<exists>s' cs. examine_all (rng p) [0..<svm_m s] s [] = Inr (s', cs) \<and> P s' \<and>
           map fst cs = [0..<svm_m s] \<and> (\<forall>c \<in> set cs. P (snd c))"
    using examine_all_run [where P = P and m = m and orders = "rng p" and s = s
        and idxs = "[0..<svm_m s]"] step inv ord Cons.prems(1) m
    by auto
  then obtain s1 cs1 where run1: "examine_all (rng p) [0..<svm_m s] s [] = Inr (s1, cs1)"
    and p1: "P s1" and all1: "\<forall>c \<in> set cs1. P (snd c)"
    and fst1: "map fst cs1 = [0..<svm_m s]"
    by auto
  have "fst c \<in> set (map fst cs1)" if "c \<in> set cs1" for c
    using that by simp
  with fst1 m have idx1: "\<forall>c \<in> set cs1. fst c < m" by simp
  have run1': "examine_all (rng p) [0..<svm_m s] s calls = Inr (s1, calls @ cs1)"
    by (subst examine_all_calls) (simp add: run1)
  from Cons.prems(2) run1' obtain accs1 where
    "fit_passes rng X_test y_test ps s1 accs1 (calls @ cs1) = Inr (s', accs', calls')"
    by (auto split: option.splits sum.splits)
  from Cons.IH [OF p1 this] all1 idx1 show ?case by auto
qed

section \<open>The example run\<close>

lemma upt2: "[0..<2] = [0, 1]" "[1..<2] = [1]" "[0..<Suc (Suc 0)] = [0, Suc 0]"
  "[Suc 0..<Suc (Suc 0)] = [Suc 0]"
  by (simp_all add: upt_rec)

lemma upt3: "[0..<3] = [0, 1, 2]" "[0..<Suc (Suc (Suc 0))] = [0, Suc 0, Suc (Suc 0)]"
  by (simp_all add: upt_rec)

lemma init_line: "init_args line_svm line_X line_Y = Inr line_start"
  by (simp add: init_args_def computer_product_matrix_def line_svm_def init_def line_X_def
      line_Y_def upt2 kernel_def np_dot_def dot_def line_start_def Let_def)

lemma examine_line_start_0:
  "examine_example line_start [0, 1] 0 = Inr (True, line_trained, [(0, 1)])"
  by (simp add: examine_example_def line_start_def function_g_def dot_def kkt_violated_def
      eps_def threshold_one Let_def upt2 update_alpha_pair_def clip_alpha_def create_E_def
      column_def line_trained_def)

lemma examine_line_trained:
  "examine_example line_trained [0, 1] 0 = Inr (False, line_trained, [])"
  "examine_example line_trained [0, 1] 1 = Inr (False, line_trained, [])"
  by (simp_all add: examine_example_def line_trained_def function_g_def dot_def
      kkt_violated_def eps_def threshold_one Let_def upt2)

lemma update_line_start: "update_alpha_pair line_start 0 1 = Inr (True, line_trained)"
  by (simp add: line_start_def Let_def update_alpha_pair_def clip_alpha_def create_E_def
      column_def line_trained_def upt2 dot_def)

lemma line_fields:
  "svm_m line_start = 2" "max_iter line_start = 2" "svm_m line_trained = 2"
  "max_iter line_svm = 2" "svm_C line_svm = 1" "svm_C line_start = 1"
  by (simp_all add: line_start_def line_trained_def line_svm_def init_def)

lemma pass_line_first:
  "examine_all (in_order p) [0, Suc 0] line_start calls =
     Inr (line_trained, calls @ [(0, line_start), (1, line_trained)])"
  using examine_line_start_0 examine_line_trained by (simp add: in_order_def)

lemma pass_line_second:
  "examine_all (in_order p) [0, Suc 0] line_trained calls =
     Inr (line_trained, calls @ [(0, line_trained), (1, line_trained)])"
  using examine_line_trained by (simp add: in_order_def)

lemma predict_line: "predict line_trained [x] = Inr (if x > 0 then 1 else - 1)"
  by (simp add: predict_def line_trained_def upt2 kernel_def np_dot_def dot_def)

lemma score_line: "score line_trained line_X_test line_y_test = Inr (3 / 4)"
  by (simp add: score_def predict_line upt_rec line_X_test_def line_y_test_def)

lemma score_empty: "score s [] y_test = Inl ZeroDivisionError"
  by (simp add: score_def)

lemma fit_line:
  "fit line_svm in_order line_X line_Y (Some line_X_test) (Some line_y_test) =
     Inr ([3 / 4, 3 / 4], line_trained,
          [(0, line_start), (1, line_trained), (0, line_trained), (1, line_trained)])"
  by (simp add: fit_def init_line line_fields pass_line_first pass_line_second score_line upt2
      del: examine_all.simps)

section \<open>Training: the box, the error cache and the passes of fit\<close>

lemma init_args_fields:
  assumes r: "rectangular features" and i: "init_args s features labels = Inr s0"
  shows "svm_m s0 = length features" "svm_X s0 = features" "svm_Y s0 = labels"
    "alpha s0 = replicate (length features) 0" "svm_b s0 = 0"
    "svm_E s0 = map (\<lambda>y. 0 - y) labels" "svm_C s0 = svm_C s" "max_iter s0 = max_iter s"
    "kernel_name s0 = kernel_name s" "matrix_dims (length features) (product_matrix s0)"
    "\<forall>p < length features. \<forall>q < length features.
       product_matrix s0 ! p ! q = kernel_value s (features ! p) (features ! q)"
proof -
  from init_args_run [OF r, of s labels] i
  obtain M where s0: "s0 = s\<lparr>svm_m := length features, svm_X := features, svm_Y := labels,
                  alpha := replicate (length features) 0, svm_b := 0,
                  product_matrix := M, svm_E := map (\<lambda>y. 0 - y) labels\<rparr>"
    and d: "matrix_dims (length features) M"
    and e: "\<forall>p < length features. \<forall>q < length features.
              M ! p ! q = kernel_value s (features ! p) (features ! q)"
    by auto
  show "svm_m s0 = length features" "svm_X s0 = features" "svm_Y s0 = labels"
    "alpha s0 = replicate (length features) 0" "svm_b s0 = 0"
    "svm_E s0 = map (\<lambda>y. 0 - y) labels" "svm_C s0 = svm_C s" "max_iter s0 = max_iter s"
    "kernel_name s0 = kernel_name s"
    by (simp_all add: s0)
  from d show "matrix_dims (length features) (product_matrix s0)" by (simp add: s0)
  from e show "\<forall>p < length features. \<forall>q < length features.
       product_matrix s0 ! p ! q = kernel_value s (features ! p) (features ! q)"
    by (simp add: s0)
qed

lemma init_args_wf:
  assumes "rectangular features" and "length labels = length features"
    and "init_args s features labels = Inr s0"
  shows "wf_state s0" "symmetric_matrix s0" "cache_ok s0"
proof -
  note f = init_args_fields [OF assms(1,3)]
  from f assms(2) show wf: "wf_state s0"
    by (simp add: wf_state_def matrix_dims_def)
  from f(1,11) show "symmetric_matrix s0"
    using kernel_value_symmetric [of s]
    by (simp add: symmetric_matrix_def list_all_length)
  show "cache_ok s0"
    using f assms(2)
    by (simp add: cache_ok_def list_all_length function_g_def dot_zero_left)
qed

lemma fit_start:
  assumes "fit s rng features labels X_test y_test = Inr (accs, s', calls)"
  shows "\<exists>s0. init_args s features labels = Inr s0 \<and>
           fit_passes rng X_test y_test [0..<nat (max_iter s0)] s0 [] [] = Inr (s', accs, calls) \<and>
           0 < max_iter s0"
  using assms by (auto simp: fit_def split: sum.splits if_splits)

text \<open>
  The multipliers in exact arithmetic. Over the real numbers a call of
  \<open>update_alpha_pair\<close> from a well-formed state with labels in \<open>{-1, +1}\<close>, \<open>C > 0\<close> and
  every multiplier in \<open>[0, C]\<close> leaves every multiplier in \<open>[0, C]\<close>, and so does \<open>fit\<close>,
  whatever orders the shuffles produce: the bounds \<open>L\<close> and \<open>H\<close> are chosen so that the
  first multiplier of the pair, which is not clipped, stays in the interval with the
  second. The binary64 arithmetic of the source loses this; the section on binary64
  below evaluates a call that does.
\<close>

theorem alpha_stays_in_box:
  "(wf_state s \<and> labels_ok s \<and> 0 < svm_C s \<and> alpha_in_box s \<and>
      update_alpha_pair s i1 i2 = Inr (ok, s1)
    \<longrightarrow> alpha_in_box s1 \<and> svm_C s1 = svm_C s \<and> length (alpha s1) = length (alpha s)) \<and>
   (0 < svm_C s \<and> rectangular features \<and> length labels = length features \<and>
      list_all (\<lambda>y. y = 1 \<or> y = - 1) labels \<and> orders_in_range (length features) rng \<and>
      fit s rng features labels X_test y_test = Inr (accs, s2, calls)
    \<longrightarrow> alpha_in_box s2 \<and> svm_C s2 = svm_C s \<and> length (alpha s2) = length features)"
proof (intro conjI impI)
  assume a: "wf_state s \<and> labels_ok s \<and> 0 < svm_C s \<and> alpha_in_box s \<and>
      update_alpha_pair s i1 i2 = Inr (ok, s1)"
  then show "alpha_in_box s1" using update_alpha_pair_box by blast
  from a have "same_model s s1" using update_alpha_pair_same_model by blast
  then show "svm_C s1 = svm_C s" by (simp add: same_model_def)
  from a have "wf_state s1" using update_alpha_pair_wf by blast
  with a \<open>same_model s s1\<close> show "length (alpha s1) = length (alpha s)"
    by (simp add: wf_state_def same_model_def)
next
  assume a: "0 < svm_C s \<and> rectangular features \<and> length labels = length features \<and>
      list_all (\<lambda>y. y = 1 \<or> y = - 1) labels \<and> orders_in_range (length features) rng \<and>
      fit s rng features labels X_test y_test = Inr (accs, s2, calls)"
  then obtain s0 where i: "init_args s features labels = Inr s0"
    and f: "fit_passes rng X_test y_test [0..<nat (max_iter s0)] s0 [] [] = Inr (s2, accs, calls)"
    using fit_start by blast
  from a have r: "rectangular features" and l: "length labels = length features" by simp_all
  note fl = init_args_fields [OF r i]
  note wf = init_args_wf(1) [OF r l i]
  define P where "P t \<longleftrightarrow> wf_state t \<and> labels_ok t \<and> alpha_in_box t \<and> same_model s0 t" for t
  have p0: "P s0"
    using wf fl a
    by (auto simp: P_def labels_ok_def alpha_in_box_def same_model_def list_all_length)
  have step: "P t'" if "P t" "update_alpha_pair t j1 j2 = Inr (True, t')" for t j1 j2 t'
    using that update_alpha_pair_wf [of t j1 j2 True t'] update_alpha_pair_box [of t j1 j2 True t']
      update_alpha_pair_labels [of t j1 j2 True t']
      update_alpha_pair_same_model [of t j1 j2 True t'] same_model_trans [of s0 t t']
    by (auto simp: P_def)
  have inv: "length (alpha t) = svm_m t \<and> svm_m t = length features" if "P t" for t
    using that fl(1) by (simp add: P_def wf_state_def same_model_def)
  have ord: "\<forall>p i. \<forall>j \<in> set (rng p i). j < length features"
    using a by (simp add: orders_in_range_def)
  have "P s2 \<and>
    (\<exists>cs. calls = [] @ cs \<and> (\<forall>c \<in> set cs. P (snd c) \<and> fst c < length features))"
  proof (rule fit_passes_preserves [where P = P, OF _ _ ord p0 f])
    show "P t'" if "P t" "update_alpha_pair t j1 j2 = Inr (True, t')" for t j1 j2 t'
      using step that by blast
    show "length (alpha t) = svm_m t \<and> svm_m t = length features" if "P t" for t
      using inv that by blast
  qed
  then have "P s2" by blast
  then show "alpha_in_box s2" "svm_C s2 = svm_C s" "length (alpha s2) = length features"
    using fl by (simp_all add: P_def same_model_def wf_state_def)
qed

lemma line_hyps:
  "wf_state line_start" "labels_ok line_start" "alpha_in_box line_start"
  "symmetric_matrix line_start" "cache_ok line_start"
  "rectangular line_X" "length line_Y = length line_X"
  "list_all (\<lambda>y. y = 1 \<or> y = - 1) line_Y" "orders_in_range (length line_X) in_order"
  by (simp_all add: wf_state_def labels_ok_def alpha_in_box_def line_start_def rectangular_def
      line_X_def line_Y_def orders_in_range_def in_order_def symmetric_matrix_def cache_ok_def
      upt2 function_g_def dot_def)

theorem alpha_stays_in_box_witness:
  "wf_state line_start \<and> labels_ok line_start \<and> 0 < svm_C line_start \<and>
   alpha_in_box line_start \<and> update_alpha_pair line_start 0 1 = Inr (True, line_trained) \<and>
   alpha_in_box line_trained \<and>
   0 < svm_C line_svm \<and> rectangular line_X \<and> length line_Y = length line_X \<and>
   list_all (\<lambda>y. y = 1 \<or> y = - 1) line_Y \<and> orders_in_range (length line_X) in_order \<and>
   fit line_svm in_order line_X line_Y (Some line_X_test) (Some line_y_test) =
     Inr ([3 / 4, 3 / 4], line_trained,
          [(0, line_start), (1, line_trained), (0, line_trained), (1, line_trained)]) \<and>
   length (alpha line_trained) = length line_X"
proof -
  have c: "0 < svm_C line_start" "0 < svm_C line_svm"
    by (simp_all add: line_fields)
  from alpha_stays_in_box [where s = line_start and ?i1.0 = 0 and ?i2.0 = 1 and ok = True
      and ?s1.0 = line_trained, THEN conjunct1]
  have box: "alpha_in_box line_trained"
    using line_hyps c update_line_start by blast
  from alpha_stays_in_box [where s = line_svm and features = line_X and labels = line_Y
      and rng = in_order and X_test = "Some line_X_test" and y_test = "Some line_y_test"
      and accs = "[3 / 4, 3 / 4]" and ?s2.0 = line_trained
      and calls = "[(0, line_start), (1, line_trained), (0, line_trained), (1, line_trained)]",
      THEN conjunct2]
  have len: "length (alpha line_trained) = length line_X"
    using line_hyps c fit_line by blast
  show ?thesis
    using line_hyps c update_line_start fit_line box len by blast
qed

text \<open>
  The error cache in exact arithmetic. Right after \<open>init_args\<close> every entry is
  \<open>b - y\<^sub>i = -y\<^sub>i\<close>. Right after a successful pair update the cache is
  \<open>(alpha * Y) K + b - Y\<close> for the committed \<open>alpha\<close> and \<open>b\<close>. Over the real numbers,
  at the start of every call of \<open>examine_example\<close> that \<open>fit\<close> makes, the freshly
  computed \<open>E1 = g(x\<^sub>i\<^sub>1) - y\<^sub>i\<^sub>1\<close> equals the cached \<open>E[i1]\<close>: the cache multiplies with
  a column of the Gram matrix and \<open>function_g\<close> with a row, and the matrix is symmetric.
  In binary64 the two sums can round differently; the section on binary64 below
  evaluates a state in which they do.
\<close>

theorem error_cache_consistent:
  "(rectangular features \<and> length labels = length features \<and>
      init_args s features labels = Inr s0
    \<longrightarrow> cache_ok s0 \<and>
        (\<forall>i < length features.
           svm_E s0 ! i = svm_b s0 - labels ! i \<and> svm_E s0 ! i = - labels ! i)) \<and>
   (update_alpha_pair s i1 i2 = Inr (True, s1)
    \<longrightarrow> (\<forall>i < svm_m s.
           svm_E s1 ! i =
             dot (map2 (*) (alpha s1) (svm_Y s1)) (column (product_matrix s1) i)
             + svm_b s1 - svm_Y s1 ! i) \<and>
        (wf_state s \<and> symmetric_matrix s \<longrightarrow> cache_ok s1)) \<and>
   (rectangular features \<and> length labels = length features \<and>
      orders_in_range (length features) rng \<and>
      fit s rng features labels X_test y_test = Inr (accs, s2, calls)
    \<longrightarrow> (\<forall>c \<in> set calls.
           function_g (snd c) (fst c) - svm_Y (snd c) ! fst c = svm_E (snd c) ! fst c))"
proof (intro conjI impI)
  assume a: "rectangular features \<and> length labels = length features \<and>
      init_args s features labels = Inr s0"
  then show "cache_ok s0" using init_args_wf(3) by blast
  from a have f: "svm_E s0 = map (\<lambda>y. 0 - y) labels" "svm_b s0 = 0"
    using init_args_fields(5,6) by blast+
  from a f show "\<forall>i < length features.
           svm_E s0 ! i = svm_b s0 - labels ! i \<and> svm_E s0 ! i = - labels ! i"
    by simp
next
  assume u: "update_alpha_pair s i1 i2 = Inr (True, s1)"
  from update_alpha_pair_cases [OF u]
  obtain t where s1: "s1 = create_E t" and m: "svm_m t = svm_m s"
    and t: "t = s\<lparr>svm_b := spec_b_new s i1 i2,
            alpha := (alpha s)[i1 := spec_alpha1_new s i1 i2,
                               i2 := spec_alpha2_new s i1 i2]\<rparr>"
    by auto
  show "\<forall>i < svm_m s.
           svm_E s1 ! i =
             dot (map2 (*) (alpha s1) (svm_Y s1)) (column (product_matrix s1) i)
             + svm_b s1 - svm_Y s1 ! i"
    unfolding s1 using m by (simp add: create_E_entry)
  show "cache_ok s1" if "wf_state s \<and> symmetric_matrix s"
  proof -
    from that have "wf_state t" "symmetric_matrix t"
      by (simp_all add: t wf_state_def symmetric_matrix_def)
    then show ?thesis unfolding s1 by (rule create_E_cache_ok)
  qed
next
  assume a: "rectangular features \<and> length labels = length features \<and>
      orders_in_range (length features) rng \<and>
      fit s rng features labels X_test y_test = Inr (accs, s2, calls)"
  then obtain s0 where i: "init_args s features labels = Inr s0"
    and f: "fit_passes rng X_test y_test [0..<nat (max_iter s0)] s0 [] [] = Inr (s2, accs, calls)"
    using fit_start by blast
  from a have r: "rectangular features" and l: "length labels = length features" by simp_all
  note fl = init_args_fields [OF r i]
  note wf = init_args_wf [OF r l i]
  define P where "P t \<longleftrightarrow> wf_state t \<and> symmetric_matrix t \<and> cache_ok t \<and> same_model s0 t" for t
  have p0: "P s0"
    using wf by (simp add: P_def same_model_def)
  have ord: "\<forall>p i. \<forall>j \<in> set (rng p i). j < length features"
    using a by (simp add: orders_in_range_def)
  have "P s2 \<and>
    (\<exists>cs. calls = [] @ cs \<and> (\<forall>c \<in> set cs. P (snd c) \<and> fst c < length features))"
  proof (rule fit_passes_preserves [where P = P, OF _ _ ord p0 f])
    show "P t'" if "P t" "update_alpha_pair t j1 j2 = Inr (True, t')" for t j1 j2 t'
      using that update_alpha_pair_wf [of t j1 j2 True t']
        update_alpha_pair_cache_ok [of t j1 j2 True t']
        update_alpha_pair_symmetric [of t j1 j2 True t']
        update_alpha_pair_same_model [of t j1 j2 True t'] same_model_trans [of s0 t t']
      by (auto simp: P_def)
    show "length (alpha t) = svm_m t \<and> svm_m t = length features" if "P t" for t
      using that fl(1) by (simp add: P_def wf_state_def same_model_def)
  qed
  then have all: "\<forall>c \<in> set calls. P (snd c)"
    and idx: "\<forall>c \<in> set calls. fst c < length features"
    by simp_all
  show "\<forall>c \<in> set calls.
           function_g (snd c) (fst c) - svm_Y (snd c) ! fst c = svm_E (snd c) ! fst c"
  proof
    fix c assume c: "c \<in> set calls"
    with all have "cache_ok (snd c)" "svm_m (snd c) = length features"
      using fl(1) by (simp_all add: P_def same_model_def)
    moreover from idx c have "fst c < length features" by blast
    ultimately show "function_g (snd c) (fst c) - svm_Y (snd c) ! fst c = svm_E (snd c) ! fst c"
      by (simp add: cache_ok_def list_all_length)
  qed
qed

theorem error_cache_consistent_witness:
  "rectangular line_X \<and> length line_Y = length line_X \<and>
   init_args line_svm line_X line_Y = Inr line_start \<and> cache_ok line_start \<and>
   svm_E line_start ! 0 = - line_Y ! 0 \<and> svm_E line_start ! 1 = - line_Y ! 1 \<and>
   update_alpha_pair line_start 0 1 = Inr (True, line_trained) \<and>
   wf_state line_start \<and> symmetric_matrix line_start \<and> cache_ok line_trained \<and>
   orders_in_range (length line_X) in_order \<and>
   fit line_svm in_order line_X line_Y (Some line_X_test) (Some line_y_test) =
     Inr ([3 / 4, 3 / 4], line_trained,
          [(0, line_start), (1, line_trained), (0, line_trained), (1, line_trained)]) \<and>
   function_g line_start 0 - svm_Y line_start ! 0 = svm_E line_start ! 0 \<and>
   function_g line_trained 1 - svm_Y line_trained ! 1 = svm_E line_trained ! 1"
proof -
  note inst = error_cache_consistent [where features = line_X and labels = line_Y
      and ?s0.0 = line_start and ?i1.0 = 0 and ?i2.0 = 1 and ?s1.0 = line_trained
      and rng = in_order and X_test = "Some line_X_test" and y_test = "Some line_y_test"
      and accs = "[3 / 4, 3 / 4]" and ?s2.0 = line_trained
      and calls = "[(0, line_start), (1, line_trained), (0, line_trained), (1, line_trained)]"]
  from inst [where s = line_svm, THEN conjunct1] line_hyps init_line
  have init: "cache_ok line_start"
    "\<forall>i < length line_X. svm_E line_start ! i = svm_b line_start - line_Y ! i \<and>
        svm_E line_start ! i = - line_Y ! i"
    by blast+
  have len: "0 < length line_X" "1 < length line_X" by (simp_all add: line_X_def)
  from init(2) len have e: "svm_E line_start ! 0 = - line_Y ! 0"
    "svm_E line_start ! 1 = - line_Y ! 1"
    by blast+
  from inst [where s = line_start, THEN conjunct2, THEN conjunct1] update_line_start line_hyps
  have upd: "cache_ok line_trained" by blast
  from inst [where s = line_svm, THEN conjunct2, THEN conjunct2] line_hyps fit_line
  have calls: "\<forall>c \<in> set [(0, line_start), (1, line_trained), (0, line_trained),
        (1::nat, line_trained)].
      function_g (snd c) (fst c) - svm_Y (snd c) ! fst c = svm_E (snd c) ! fst c"
    by blast
  from calls have g: "function_g line_start 0 - svm_Y line_start ! 0 = svm_E line_start ! 0"
    "function_g line_trained 1 - svm_Y line_trained ! 1 = svm_E line_trained ! 1"
    by simp_all
  show ?thesis
    using line_hyps init_line init(1) e update_line_start upd fit_line g by blast
qed

text \<open>
  With \<open>max_iter \<le> 0\<close> the loop of \<open>fit\<close> never binds \<open>passes\<close>, and the
  message printed after the loop cannot be built.
\<close>

lemma fit_without_passes:
  assumes "max_iter s \<le> 0" and "rectangular features"
  shows "fit s rng features labels X_test y_test = Inl UnboundLocalError"
proof -
  from init_args_run [OF assms(2), of s labels]
  obtain s0 where i: "init_args s features labels = Inr s0" by blast
  from init_args_fields(8) [OF assms(2) i] assms(1) have "max_iter s0 \<le> 0" by simp
  with i show ?thesis by (simp add: fit_def)
qed






lemma j_candidates_set:
  assumes "length (alpha s) = svm_m s"
  shows "set (j_candidates s i1) =
    {j. j < svm_m s \<and> j \<noteq> i1 \<and> eps < alpha s ! j \<and> alpha s ! j < sub_f64 (svm_C s) eps}"
  using assms by (auto simp: j_candidates_def)

lemma first_j2_maximal:
  assumes "j \<in> set (j_candidates s i1)"
  shows "\<bar>svm_E s ! j - (function_g s i1 - svm_Y s ! i1)\<bar>
         \<le> \<bar>svm_E s ! first_j2 s i1 - (function_g s i1 - svm_Y s ! i1)\<bar>"
proof -
  define f where "f = (\<lambda>k. \<bar>svm_E s ! k - (function_g s i1 - svm_Y s ! i1)\<bar>)"
  define vals where "vals = map f (j_candidates s i1)"
  from assms obtain k where k: "k < length (j_candidates s i1)" "j_candidates s i1 ! k = j"
    by (auto simp: in_set_conv_nth)
  then have kv: "k < length vals" by (simp add: vals_def)
  then have ne: "vals \<noteq> []" by auto
  from argmax_list_less [OF ne] have a: "argmax_list vals < length (j_candidates s i1)"
    by (simp add: vals_def)
  from argmax_list_max [OF kv] have "vals ! k \<le> vals ! argmax_list vals" .
  with k a have "f j \<le> f (j_candidates s i1 ! argmax_list vals)"
    by (simp add: vals_def)
  then show ?thesis
    unfolding first_j2_def vals_def f_def .
qed

lemma j_candidates_sorted: "sorted_wrt (<) (j_candidates s i1)"
  unfolding j_candidates_def by (intro sorted_wrt_filter) simp

lemma first_j2_least:
  assumes "j \<in> set (j_candidates s i1)"
    and "\<bar>svm_E s ! j - (function_g s i1 - svm_Y s ! i1)\<bar>
         = \<bar>svm_E s ! first_j2 s i1 - (function_g s i1 - svm_Y s ! i1)\<bar>"
  shows "first_j2 s i1 \<le> j"
proof -
  define f where "f = (\<lambda>k. \<bar>svm_E s ! k - (function_g s i1 - svm_Y s ! i1)\<bar>)"
  define vals where "vals = map f (j_candidates s i1)"
  define p where "p = argmax_list vals"
  have fj: "first_j2 s i1 = j_candidates s i1 ! p"
    unfolding first_j2_def p_def vals_def f_def ..
  from assms(1) obtain k where k: "k < length (j_candidates s i1)" "j_candidates s i1 ! k = j"
    by (auto simp: in_set_conv_nth)
  then have kv: "k < length vals" by (simp add: vals_def)
  then have ne: "vals \<noteq> []" by auto
  from argmax_list_less [OF ne] have a: "p < length (j_candidates s i1)"
    by (simp add: vals_def p_def)
  have eq: "vals ! k = vals ! p"
    using assms(2) k a unfolding fj by (simp add: vals_def f_def)
  have "\<not> k < p"
  proof
    assume "k < p"
    from argmax_list_first [OF this [unfolded p_def]] eq show False
      by (simp add: p_def)
  qed
  then have "p \<le> k" by simp
  then have "j_candidates s i1 ! p \<le> j_candidates s i1 ! k"
  proof (cases "p = k")
    case False
    with \<open>p \<le> k\<close> have "p < k" by simp
    from sorted_wrt_nth_less [OF j_candidates_sorted this k(1)] show ?thesis by simp
  qed simp
  then show ?thesis unfolding fj k(2) .
qed

text \<open>
  C6. When the KKT check of \<open>examine_example\<close> on index \<open>i1\<close> finds a violation,
  with \<open>E1 = g(x\<^sub>i\<^sub>1) - y\<^sub>i\<^sub>1\<close> freshly computed, and some index other than \<open>i1\<close> has
  its multiplier strictly between \<open>1e-6\<close> and \<open>C - 1e-6\<close>, the first pair update attempted
  is \<open>update_alpha_pair(i1, j2)\<close> with \<open>j2\<close> one of these indices that maximises
  \<open>|E[j] - E1|\<close> over them (the least one among several maximisers), \<open>E[j]\<close> read from the
  cache. If that update succeeds, \<open>examine_example\<close> returns True with the object this
  update committed and has called \<open>update_alpha_pair\<close> on no other pair; if it fails, the
  object is unchanged and the call continues with the scan over the shuffled indices, so
  \<open>(i1, j2)\<close> is in every case the first pair attempted. When the check finds no
  violation the call returns False, changes nothing and hands no pair to
  \<open>update_alpha_pair\<close>.
\<close>

theorem examine_example_first_attempt:
  assumes "wf_state s" and "i1 < svm_m s" and "\<forall>j \<in> set shuffled. j < svm_m s"
  defines "E1 \<equiv> function_g s i1 - svm_Y s ! i1"
  defines "violation \<equiv>
    (alpha s ! i1 < eps \<and> E1 * svm_Y s ! i1 < 0) \<or>
    (alpha s ! i1 > sub_f64 (svm_C s) eps \<and> E1 * svm_Y s ! i1 > 0) \<or>
    (eps \<le> alpha s ! i1 \<and> alpha s ! i1 \<le> sub_f64 (svm_C s) eps \<and> \<bar>E1 * svm_Y s ! i1\<bar> > eps)"
  defines "non_bound \<equiv>
    {j. j < svm_m s \<and> j \<noteq> i1 \<and> eps < alpha s ! j \<and> alpha s ! j < sub_f64 (svm_C s) eps}"
  shows "(violation \<and> non_bound \<noteq> {} \<longrightarrow>
           (\<exists>j2 ok1 s1.
              j2 \<in> non_bound \<and>
              (\<forall>j \<in> non_bound. \<bar>svm_E s ! j - E1\<bar> \<le> \<bar>svm_E s ! j2 - E1\<bar>) \<and>
              (\<forall>j \<in> non_bound. \<bar>svm_E s ! j - E1\<bar> = \<bar>svm_E s ! j2 - E1\<bar> \<longrightarrow> j2 \<le> j) \<and>
              update_alpha_pair s i1 j2 = Inr (ok1, s1) \<and>
              (ok1 \<longrightarrow> examine_example s shuffled i1 = Inr (True, s1, [(i1, j2)])) \<and>
              (\<not> ok1 \<longrightarrow> s1 = s \<and>
                 examine_example s shuffled i1 = examine_scan s i1 shuffled [(i1, j2)]) \<and>
              (\<exists>ok s' rest. examine_example s shuffled i1 = Inr (ok, s', (i1, j2) # rest)))) \<and>
         (\<not> violation \<longrightarrow> examine_example s shuffled i1 = Inr (False, s, []))"
proof (intro conjI impI)
  have kkt: "kkt_violated s i1 (function_g s i1 - svm_Y s ! i1) = violation"
    by (simp add: kkt_violated_def violation_def E1_def Let_def)
  from assms(1) have len: "length (alpha s) = svm_m s" by (simp add: wf_state_def)
  have nb: "set (j_candidates s i1) = non_bound"
    unfolding non_bound_def by (rule j_candidates_set [OF len])
  {
    assume "\<not> violation"
    with kkt show "examine_example s shuffled i1 = Inr (False, s, [])"
      by (simp add: examine_example_unfold [OF assms(2)])
  }
  assume a: "violation \<and> non_bound \<noteq> {}"
  with nb have ne: "j_candidates s i1 \<noteq> []" by auto
  define j2 where "j2 = first_j2 s i1"
  from first_j2_in_range [OF ne len] nb have j2: "j2 \<in> non_bound" "j2 < svm_m s"
    by (simp_all add: j2_def)
  have mx: "\<forall>j \<in> non_bound. \<bar>svm_E s ! j - E1\<bar> \<le> \<bar>svm_E s ! j2 - E1\<bar>"
    using first_j2_maximal [of _ s i1] nb by (simp add: j2_def E1_def)
  have least: "\<forall>j \<in> non_bound. \<bar>svm_E s ! j - E1\<bar> = \<bar>svm_E s ! j2 - E1\<bar> \<longrightarrow> j2 \<le> j"
    using first_j2_least [of _ s i1] nb by (simp add: j2_def E1_def)
  from update_alpha_pair_total [OF assms(2) j2(2)]
  obtain ok1 s1 where u: "update_alpha_pair s i1 j2 = Inr (ok1, s1)" by blast
  have ex: "examine_example s shuffled i1 =
      (if ok1 then Inr (True, s1, [(i1, j2)]) else examine_scan s1 i1 shuffled [(i1, j2)])"
    using u a kkt ne by (simp add: examine_example_unfold [OF assms(2)] j2_def)
  have t: "ok1 \<longrightarrow> examine_example s shuffled i1 = Inr (True, s1, [(i1, j2)])"
    using ex by simp
  have f: "\<not> ok1 \<longrightarrow> s1 = s \<and>
      examine_example s shuffled i1 = examine_scan s i1 shuffled [(i1, j2)]"
  proof
    assume n: "\<not> ok1"
    with update_alpha_pair_cases [OF u] have s1: "s1 = s" by simp
    with ex n show "s1 = s \<and>
      examine_example s shuffled i1 = examine_scan s i1 shuffled [(i1, j2)]" by simp
  qed
  have fst: "\<exists>ok s' rest. examine_example s shuffled i1 = Inr (ok, s', (i1, j2) # rest)"
  proof (cases ok1)
    case True
    with t show ?thesis by blast
  next
    case False
    from examine_scan_total [OF assms(3,2), of "[(i1, j2)]"]
    obtain ok s' tried' where sc: "examine_scan s i1 shuffled [(i1, j2)] = Inr (ok, s', tried')"
      by blast
    from examine_scan_tried [OF sc] obtain rest where "tried' = (i1, j2) # rest" by auto
    with sc False f have "examine_example s shuffled i1 = Inr (ok, s', (i1, j2) # rest)"
      by simp
    then show ?thesis by blast
  qed
  show "\<exists>j2 ok1 s1.
              j2 \<in> non_bound \<and>
              (\<forall>j \<in> non_bound. \<bar>svm_E s ! j - E1\<bar> \<le> \<bar>svm_E s ! j2 - E1\<bar>) \<and>
              (\<forall>j \<in> non_bound. \<bar>svm_E s ! j - E1\<bar> = \<bar>svm_E s ! j2 - E1\<bar> \<longrightarrow> j2 \<le> j) \<and>
              update_alpha_pair s i1 j2 = Inr (ok1, s1) \<and>
              (ok1 \<longrightarrow> examine_example s shuffled i1 = Inr (True, s1, [(i1, j2)])) \<and>
              (\<not> ok1 \<longrightarrow> s1 = s \<and>
                 examine_example s shuffled i1 = examine_scan s i1 shuffled [(i1, j2)]) \<and>
              (\<exists>ok s' rest. examine_example s shuffled i1 = Inr (ok, s', (i1, j2) # rest))"
    apply (rule exI [of _ j2], rule exI [of _ ok1], rule exI [of _ s1])
    by (intro conjI) (rule j2(1) mx least u t f fst)+
qed

lemma three_points_values:
  "svm_m three_points = 3" "alpha three_points ! 0 = 0"
  "alpha three_points ! 1 = 1 / 2" "alpha three_points ! 2 = 1 / 2"
  "svm_C three_points = 1" "svm_Y three_points ! 0 = 1" "function_g three_points 0 = 0"
  "svm_E three_points ! 1 = 3 / 2" "svm_E three_points ! 2 = 0"
  "alpha three_points ! Suc 0 = 1 / 2" "svm_E three_points ! Suc 0 = 3 / 2"
  by (simp_all add: three_points_def function_g_def dot_def)

lemma three_points_update:
  "update_alpha_pair three_points 0 1 = Inr (True, three_points_next)"
  by (simp add: update_alpha_pair_def three_points_def three_points_next_def clip_alpha_def
      create_E_def column_def dot_def Let_def upt3)

lemma twin_points_values:
  "svm_m twin_points = 3" "alpha twin_points ! 0 = 0"
  "alpha twin_points ! 1 = 1 / 2" "alpha twin_points ! 2 = 0"
  "svm_C twin_points = 1" "svm_Y twin_points ! 0 = 1" "function_g twin_points 0 = - 1 / 2"
  "alpha twin_points ! Suc 0 = 1 / 2"
  by (simp_all add: twin_points_def function_g_def dot_def)

lemma twin_points_update:
  "update_alpha_pair twin_points 0 1 = Inr (False, twin_points)"
  "update_alpha_pair twin_points 0 2 = Inr (True, twin_points_next)"
  "update_alpha_pair twin_points 0 (Suc 0) = Inr (False, twin_points)"
  by (simp_all add: update_alpha_pair_def twin_points_def twin_points_next_def clip_alpha_def
      create_E_def column_def dot_def Let_def upt3)

theorem examine_example_first_attempt_witness:
  "wf_state three_points \<and> 0 < svm_m three_points \<and>
   list_all (\<lambda>j. j < svm_m three_points) [1, 2, 0] \<and>
   alpha three_points ! 0 < eps \<and>
   (function_g three_points 0 - svm_Y three_points ! 0) * svm_Y three_points ! 0 < 0 \<and>
   eps < alpha three_points ! 1 \<and> alpha three_points ! 1 < sub_f64 (svm_C three_points) eps \<and>
   update_alpha_pair three_points 0 1 = Inr (True, three_points_next) \<and>
   examine_example three_points [1, 2, 0] 0 = Inr (True, three_points_next, [(0, 1)]) \<and>
   wf_state twin_points \<and> alpha twin_points ! 0 < eps \<and>
   (function_g twin_points 0 - svm_Y twin_points ! 0) * svm_Y twin_points ! 0 < 0 \<and>
   eps < alpha twin_points ! 1 \<and> alpha twin_points ! 1 < sub_f64 (svm_C twin_points) eps \<and>
   update_alpha_pair twin_points 0 1 = Inr (False, twin_points) \<and>
   examine_example twin_points [1, 2, 0] 0
     = Inr (True, twin_points_next, [(0, 1), (0, 1), (0, 2)]) \<and>
   wf_state line_trained \<and>
   examine_example line_trained [0, 1] 0 = Inr (False, line_trained, [])"
proof -
  have wf: "wf_state three_points" "wf_state line_trained" "wf_state twin_points"
    by (simp_all add: wf_state_def three_points_def line_trained_def twin_points_def)
  have r: "0 < svm_m three_points" "0 < svm_m line_trained" "0 < svm_m twin_points"
    by (simp_all add: three_points_values line_fields twin_points_values)
  have sh: "\<forall>j \<in> set [1, 2, 0]. j < svm_m three_points"
    "\<forall>j \<in> set [0, 1]. j < svm_m line_trained"
    "\<forall>j \<in> set [1, 2, 0]. j < svm_m twin_points"
    by (simp_all add: three_points_values line_fields twin_points_values)
  have v: "alpha three_points ! 0 < eps"
    "(function_g three_points 0 - svm_Y three_points ! 0) * svm_Y three_points ! 0 < 0"
    by (simp_all add: three_points_values eps_def)
  have c: "eps < alpha three_points ! 1" "alpha three_points ! 1 < sub_f64 (svm_C three_points) eps"
    by (simp_all add: three_points_values eps_def threshold_one)
  define nb where "nb = {j. j < svm_m three_points \<and> j \<noteq> 0 \<and> eps < alpha three_points ! j \<and>
      alpha three_points ! j < sub_f64 (svm_C three_points) eps}"
  have nb1: "1 \<in> nb" using c by (simp add: nb_def three_points_values)
  then have ne: "nb \<noteq> {}" by blast
  from examine_example_first_attempt [OF wf(1) r(1) sh(1), THEN conjunct1, folded nb_def]
    v ne
  obtain j2 ok1 s1 where j2: "j2 \<in> nb"
    and mx: "\<forall>j \<in> nb. \<bar>svm_E three_points ! j -
          (function_g three_points 0 - svm_Y three_points ! 0)\<bar>
        \<le> \<bar>svm_E three_points ! j2 - (function_g three_points 0 - svm_Y three_points ! 0)\<bar>"
    and u: "update_alpha_pair three_points 0 j2 = Inr (ok1, s1)"
    and t: "ok1 \<longrightarrow> examine_example three_points [1, 2, 0] 0 = Inr (True, s1, [(0, j2)])"
    by blast
  from j2 have "j2 = 1 \<or> j2 = 2"
    by (auto simp: nb_def three_points_values)
  moreover from mx nb1 have "\<bar>svm_E three_points ! 1 -
          (function_g three_points 0 - svm_Y three_points ! 0)\<bar>
        \<le> \<bar>svm_E three_points ! j2 - (function_g three_points 0 - svm_Y three_points ! 0)\<bar>"
    by blast
  ultimately have j21: "j2 = 1"
    by (auto simp: three_points_values)
  from u three_points_update have "ok1" "s1 = three_points_next"
    unfolding j21 by simp_all
  with t j21 have first:
    "examine_example three_points [1, 2, 0] 0 = Inr (True, three_points_next, [(0, 1)])"
    by simp
  have tv: "alpha twin_points ! 0 < eps"
    "(function_g twin_points 0 - svm_Y twin_points ! 0) * svm_Y twin_points ! 0 < 0"
    by (simp_all add: twin_points_values eps_def)
  have tc: "eps < alpha twin_points ! 1" "alpha twin_points ! 1 < sub_f64 (svm_C twin_points) eps"
    by (simp_all add: twin_points_values eps_def threshold_one)
  define tb where "tb = {j. j < svm_m twin_points \<and> j \<noteq> 0 \<and> eps < alpha twin_points ! j \<and>
      alpha twin_points ! j < sub_f64 (svm_C twin_points) eps}"
  have tb1: "1 \<in> tb" using tc by (simp add: tb_def twin_points_values)
  then have tne: "tb \<noteq> {}" by blast
  from examine_example_first_attempt [OF wf(3) r(3) sh(3), THEN conjunct1, folded tb_def]
    tv tne
  obtain k2 ok2 s2 where k2: "k2 \<in> tb"
    and u2: "update_alpha_pair twin_points 0 k2 = Inr (ok2, s2)"
    and f2: "\<not> ok2 \<longrightarrow> s2 = twin_points \<and>
        examine_example twin_points [1, 2, 0] 0 = examine_scan twin_points 0 [1, 2, 0] [(0, k2)]"
    by blast
  from k2 have "k2 < 3" "k2 \<noteq> 0" "eps < alpha twin_points ! k2"
    by (simp_all add: tb_def twin_points_values)
  moreover have "\<not> eps < alpha twin_points ! 2"
    by (simp add: twin_points_values eps_def)
  ultimately have k21: "k2 = 1"
    by (cases "k2 = 2") auto
  from u2 twin_points_update(1) have "\<not> ok2"
    unfolding k21 by simp
  with f2 k21 have "examine_example twin_points [1, 2, 0] 0
      = examine_scan twin_points 0 [1, 2, 0] [(0, 1)]"
    by simp
  also have "\<dots> = Inr (True, twin_points_next, [(0, 1), (0, 1), (0, 2)])"
    by (simp add: twin_points_update)
  finally have third: "examine_example twin_points [1, 2, 0] 0
      = Inr (True, twin_points_next, [(0, 1), (0, 1), (0, 2)])" .
  have nv: "\<not> ((alpha line_trained ! 0 < eps \<and>
        (function_g line_trained 0 - svm_Y line_trained ! 0) * svm_Y line_trained ! 0 < 0) \<or>
      (alpha line_trained ! 0 > sub_f64 (svm_C line_trained) eps \<and>
        (function_g line_trained 0 - svm_Y line_trained ! 0) * svm_Y line_trained ! 0 > 0) \<or>
      (eps \<le> alpha line_trained ! 0 \<and> alpha line_trained ! 0 \<le> sub_f64 (svm_C line_trained) eps \<and>
        \<bar>(function_g line_trained 0 - svm_Y line_trained ! 0) * svm_Y line_trained ! 0\<bar> > eps))"
    by (simp add: line_trained_def function_g_def dot_def eps_def threshold_one)
  from examine_example_first_attempt [OF wf(2) r(2) sh(2), THEN conjunct2] nv
  have second: "examine_example line_trained [0, 1] 0 = Inr (False, line_trained, [])"
    by blast
  have l: "list_all (\<lambda>j. j < svm_m three_points) [1, 2, 0]"
    using sh(1) by (simp add: list_all_iff)
  show ?thesis
    by (intro conjI)
      (rule wf r(1) l v c three_points_update first tv tc twin_points_update(1) third second)+
qed
section \<open>The pair update and the error cache in binary64\<close>

text \<open>
  The roundings that occur in the three pair updates from \<open>drift_0\<close>: each line is
  one evaluation of \<open>f64\<close>.
\<close>

lemma f64_values_drift:
  "f64 0 = 0"
  "f64 (- 1) = - 1"
  "f64 (1) = 1"
  "f64 (- 2) = - 2"
  "f64 (2) = 2"
  "f64 (- 3) = - 3"
  "f64 (3) = 3"
  "f64 (- 4) = - 4"
  "f64 (4) = 4"
  "f64 (- 6) = - 6"
  "f64 (6) = 6"
  "f64 (9) = 9"
  "f64 (10) = 10"
  "f64 (- 12) = - 12"
  "f64 (13) = 13"
  "f64 (25) = 25"
  "f64 (2 / 25) = 5764607523034235 / 72057594037927936"
  "f64 (- (3 / 25)) = - (1080863910568919 / 9007199254740992)"
  "f64 (607985949695017 / 562949953421312) = 607985949695017 / 562949953421312"
  "f64 (2195504818343117 / 562949953421312) = 2195504818343117 / 562949953421312"
  "f64 (788129934789837 / 1125899906842624) = 788129934789837 / 1125899906842624"
  "f64 (- (900719925474099 / 1125899906842624)) = - (900719925474099 / 1125899906842624)"
  "f64 (- (1351079888211149 / 1125899906842624)) = - (1351079888211149 / 1125899906842624)"
  "f64 (1351079888211149 / 1125899906842624) = 1351079888211149 / 1125899906842624"
  "f64 (- (2567051787601183 / 1125899906842624)) = - (2567051787601183 / 1125899906842624)"
  "f64 (3039929748475085 / 1125899906842624) = 3039929748475085 / 1125899906842624"
  "f64 (- (450359962737049 / 2251799813685248)) = - (450359962737049 / 2251799813685248)"
  "f64 (- (1080863910568919 / 2251799813685248)) = - (1080863910568919 / 2251799813685248)"
  "f64 (- (1170935903116329 / 2251799813685248)) = - (1170935903116329 / 2251799813685248)"
  "f64 (1351079888211149 / 2251799813685248) = 1351079888211149 / 2251799813685248"
  "f64 (1801439850948199 / 2251799813685248) = 1801439850948199 / 2251799813685248"
  "f64 (- (2476979795053773 / 2251799813685248)) = - (2476979795053773 / 2251799813685248)"
  "f64 (2567051787601183 / 2251799813685248) = 2567051787601183 / 2251799813685248"
  "f64 (- (4053239664633447 / 2251799813685248)) = - (4053239664633447 / 2251799813685248)"
  "f64 (7701155362803549 / 2251799813685248) = 7701155362803549 / 2251799813685248"
  "f64 (1 / 4503599627370496) = 1 / 4503599627370496"
  "f64 (- (900719925474099 / 4503599627370496)) = - (900719925474099 / 4503599627370496)"
  "f64 (1080863910568919 / 4503599627370496) = 1080863910568919 / 4503599627370496"
  "f64 (1261007895663739 / 4503599627370496) = 1261007895663739 / 4503599627370496"
  "f64 (- (1351079888211149 / 4503599627370496)) = - (1351079888211149 / 4503599627370496)"
  "f64 (1351079888211149 / 4503599627370496) = 1351079888211149 / 4503599627370496"
  "f64 (1441151880758559 / 4503599627370496) = 1441151880758559 / 4503599627370496"
  "f64 (3062447746611937 / 4503599627370496) = 3062447746611937 / 4503599627370496"
  "f64 (3242591731706757 / 4503599627370496) = 3242591731706757 / 4503599627370496"
  "f64 (- (3602879701896397 / 4503599627370496)) = - (3602879701896397 / 4503599627370496)"
  "f64 (- (4053239664633447 / 4503599627370496)) = - (4053239664633447 / 4503599627370496)"
  "f64 (4053239664633447 / 4503599627370496) = 4053239664633447 / 4503599627370496"
  "f64 (4503599627370497 / 4503599627370496) = 4503599627370497 / 4503599627370496"
  "f64 (5404319552844595 / 4503599627370496) = 5404319552844595 / 4503599627370496"
  "f64 (- (6305039478318695 / 4503599627370496)) = - (6305039478318695 / 4503599627370496)"
  "f64 (8106479329266893 / 4503599627370496) = 8106479329266893 / 4503599627370496"
  "f64 (- (9007199254740993 / 4503599627370496)) = - 2"
  "f64 (12159718993900341 / 4503599627370496) = 3039929748475085 / 1125899906842624"
  "f64 (13510798882111489 / 4503599627370496) = 3"
  "f64 (1801439850948197 / 9007199254740992) = 1801439850948197 / 9007199254740992"
  "f64 (1801439850948199 / 9007199254740992) = 1801439850948199 / 9007199254740992"
  "f64 (3602879701896397 / 9007199254740992) = 3602879701896397 / 9007199254740992"
  "f64 (- (4323455642275677 / 9007199254740992)) = - (4323455642275677 / 9007199254740992)"
  "f64 (4323455642275677 / 9007199254740992) = 4323455642275677 / 9007199254740992"
  "f64 (10808639105689191 / 9007199254740992) = 1351079888211149 / 1125899906842624"
  "f64 (- (13690942867206307 / 9007199254740992)) = - (3422735716801577 / 2251799813685248)"
  "f64 (- (20536414300809465 / 9007199254740992)) = - (2567051787601183 / 1125899906842624)"
  "f64 (1 / 18014398509481984) = 1 / 18014398509481984"
  "f64 (- (1441151880758559 / 18014398509481984)) = - (1441151880758559 / 18014398509481984)"
  "f64 (1441151880758559 / 18014398509481984) = 1441151880758559 / 18014398509481984"
  "f64 (- (3602879701896397 / 18014398509481984)) = - (3602879701896397 / 18014398509481984)"
  "f64 (4683743612465317 / 18014398509481984) = 4683743612465317 / 18014398509481984"
  "f64 (- (5764607523034235 / 18014398509481984)) = - (5764607523034235 / 18014398509481984)"
  "f64 (6845471433603155 / 18014398509481984) = 6845471433603155 / 18014398509481984"
  "f64 (- (12970366926827031 / 18014398509481984)) = - (1621295865853379 / 2251799813685248)"
  "f64 (- (14411518807585587 / 18014398509481984)) = - (3602879701896397 / 4503599627370496)"
  "f64 (20536414300809465 / 18014398509481984) = 2567051787601183 / 2251799813685248"
  "f64 (24859869943085139 / 18014398509481984) = 6214967485771285 / 4503599627370496"
  "f64 (- (32425917317067575 / 18014398509481984)) = - (4053239664633447 / 2251799813685248)"
  "f64 (- (46837436124653163 / 18014398509481984)) = - (5854679515581645 / 2251799813685248)"
  "f64 (61609242902428395 / 18014398509481984) = 7701155362803549 / 2251799813685248"
  "f64 (- (1 / 36028797018963968)) = - (1 / 36028797018963968)"
  "f64 (- (3 / 36028797018963968)) = - (3 / 36028797018963968)"
  "f64 (5764607523034235 / 36028797018963968) = 5764607523034235 / 36028797018963968"
  "f64 (14411518807585587 / 36028797018963968) = 3602879701896397 / 9007199254740992"
  "f64 (- (17293822569102705 / 36028797018963968)) = - (1080863910568919 / 2251799813685248)"
  "f64 (17293822569102705 / 36028797018963968) = 1080863910568919 / 2251799813685248"
  "f64 (32425917317067575 / 36028797018963968) = 4053239664633447 / 4503599627370496"
  "f64 (46837436124653163 / 36028797018963968) = 5854679515581645 / 4503599627370496"
  "f64 (97277751951202717 / 36028797018963968) = 3039929748475085 / 1125899906842624"
  "f64 (- (1 / 72057594037927936)) = - (1 / 72057594037927936)"
  "f64 (1 / 72057594037927936) = 1 / 72057594037927936"
  "f64 (- (5764607523034235 / 72057594037927936)) = - (5764607523034235 / 72057594037927936)"
  "f64 (5764607523034235 / 72057594037927936) = 5764607523034235 / 72057594037927936"
  "f64 (17293822569102705 / 72057594037927936) = 1080863910568919 / 4503599627370496"
  "f64 (- (21617278211378385 / 72057594037927936)) = - (1351079888211149 / 4503599627370496)"
  "f64 (21617278211378385 / 72057594037927936) = 1351079888211149 / 4503599627370496"
  "f64 (27381885734412619 / 72057594037927936) = 6845471433603155 / 18014398509481984"
  "f64 (51881467707308115 / 72057594037927936) = 3242591731706757 / 4503599627370496"
  "f64 (77822201560962171 / 72057594037927936) = 607985949695017 / 562949953421312"
  "f64 (93674872249306325 / 72057594037927936) = 5854679515581645 / 4503599627370496"
  by (simp_all add: f64_eval)

lemma drift_updates:
  "update_alpha_pair_f64 np_dot_f64 drift_0 0 1 = Inr (True, drift_1)"
  "update_alpha_pair_f64 np_dot_f64 drift_1 2 0 = Inr (True, drift_2)"
  "update_alpha_pair_f64 np_dot_f64 drift_2 1 0 = Inr (True, drift_3)"
  by (simp_all add: update_alpha_pair_f64_def drift_0_def drift_1_def drift_2_def drift_3_def
      clip_alpha_def create_E_f64_def column_def np_dot_f64_def upt3 ops_f64 f64_values_drift
      Let_def)

lemma drift_init:
  "init_args (init 1 1000 ''linear'') [[- 3], [2], [- 1]] [1, - 1, - 1] = Inr drift_0"
  by (simp add: init_args_def init_def computer_product_matrix_def kernel_def np_dot_def
      dot_def drift_0_def upt_rec Let_def)

text \<open>
  C2. In binary64 the pair update does not keep the multipliers in \<open>[0, C]\<close>. On the
  points \<open>-3\<close>, \<open>2\<close>, \<open>-1\<close> with labels \<open>1\<close>, \<open>-1\<close>, \<open>-1\<close> and \<open>C = 1\<close>, the updates
  on \<open>(0, 1)\<close> and \<open>(2, 0)\<close> lead from the object after \<open>init_args\<close> to an object whose
  multipliers all lie in \<open>[0, 1]\<close>; the update on \<open>(1, 0)\<close> from there clips the second
  multiplier of the pair to \<open>L\<close> and gives the first one, which is not clipped, the
  value \<open>0.08 + (0.38000000000000006 - 0.30000000000000004)\<close> rounded, which is
  \<open>-2\<^sup>-\<^sup>5\<^sup>6\<close>.
\<close>

theorem update_alpha_pair_f64_leaves_box:
  "init_args (init 1 1000 ''linear'') [[- 3], [2], [- 1]] [1, - 1, - 1] = Inr drift_0 \<and>
   update_alpha_pair_f64 np_dot_f64 drift_0 0 1 = Inr (True, drift_1) \<and>
   update_alpha_pair_f64 np_dot_f64 drift_1 2 0 = Inr (True, drift_2) \<and>
   0 < svm_C drift_2 \<and> alpha_in_box drift_2 \<and> labels_ok drift_2 \<and> wf_state drift_2 \<and>
   update_alpha_pair_f64 np_dot_f64 drift_2 1 0 = Inr (True, drift_3) \<and>
   alpha drift_3 ! 1 = - 1 / 2 ^ 56 \<and> alpha drift_3 ! 1 < 0 \<and>
   \<not> alpha_in_box drift_3"
proof -
  have box: "0 < svm_C drift_2" "alpha_in_box drift_2" "labels_ok drift_2" "wf_state drift_2"
    by (simp_all add: drift_2_def alpha_in_box_def labels_ok_def wf_state_def)
  have neg: "alpha drift_3 ! 1 = - 1 / 2 ^ 56" "alpha drift_3 ! 1 < 0"
    "\<not> alpha_in_box drift_3"
    by (simp_all add: drift_3_def alpha_in_box_def)
  show ?thesis
    by (intro conjI) (rule drift_init drift_updates box neg)+
qed

text \<open>
  The roundings that occur in the first three calls of \<open>examine_example\<close> from
  \<open>residue_0\<close>.
\<close>

lemma f64_values_residue:
  "f64 0 = 0"
  "f64 (- 1) = - 1"
  "f64 (1) = 1"
  "f64 (- 2) = - 2"
  "f64 (2) = 2"
  "f64 (- 3) = - 3"
  "f64 (- 9) = - 9"
  "f64 (9) = 9"
  "f64 (18) = 18"
  "f64 (- (2 / 9)) = - (2001599834386887 / 9007199254740992)"
  "f64 (2 / 9) = 2001599834386887 / 9007199254740992"
  "f64 (1376099886140985 / 1125899906842624) = 1376099886140985 / 1125899906842624"
  "f64 (- (1 / 9007199254740992)) = - (1 / 9007199254740992)"
  "f64 (1 / 9007199254740992) = 1 / 9007199254740992"
  "f64 (- (2001599834386887 / 9007199254740992)) = - (2001599834386887 / 9007199254740992)"
  "f64 (2001599834386887 / 9007199254740992) = 2001599834386887 / 9007199254740992"
  "f64 (- (7005599420354105 / 9007199254740992)) = - (7005599420354105 / 9007199254740992)"
  "f64 (- (9007199254740991 / 9007199254740992)) = - (9007199254740991 / 9007199254740992)"
  "f64 (11008799089127879 / 9007199254740992) = 1376099886140985 / 1125899906842624"
  "f64 (- (18014398509481983 / 9007199254740992)) = - 2"
  "f64 (18014398509481983 / 9007199254740992) = 2"
  "f64 (4722366482869645 / 4722366482869645213696) = 4722366482869645 / 4722366482869645213696"
  "f64 (4722361760503162344051 / 4722366482869645213696) = 9007190247541737 / 9007199254740992"
  by (simp_all add: f64_eval)

lemma upt4: "[0..<4] = [0, 1, 2, 3]"
  by (simp add: upt_rec)

lemma residue_init:
  "init_args (init 1 1000 ''linear'') [[- 3], [- 3], [- 3], [0]] [1, - 1, - 1, - 1]
     = Inr residue_0"
  by (simp add: init_args_def init_def computer_product_matrix_def kernel_def np_dot_def
      dot_def residue_0_def upt_rec Let_def)

lemma residue_updates:
  "update_alpha_pair_f64 np_dot_f64 residue_0 0 1 = Inr (False, residue_0)"
  "update_alpha_pair_f64 np_dot_f64 residue_0 0 2 = Inr (False, residue_0)"
  "update_alpha_pair_f64 np_dot_f64 residue_0 0 3 = Inr (True, residue_1)"
  "update_alpha_pair_f64 np_dot_f64 residue_1 1 0 = Inr (False, residue_1)"
  "update_alpha_pair_f64 np_dot_f64 residue_1 1 2 = Inr (False, residue_1)"
  "update_alpha_pair_f64 np_dot_f64 residue_1 1 3 = Inr (True, residue_2)"
  by (simp_all add: update_alpha_pair_f64_def residue_0_def residue_1_def residue_2_def
      clip_alpha_def create_E_f64_def column_def np_dot_f64_def upt4 ops_f64
      f64_values_residue Let_def)

lemma residue_cache:
  "create_E_f64 np_dot_f64 residue_2 = residue_2"
  "svm_E residue_2 ! 2 = 0"
  by (simp_all add: residue_2_def create_E_f64_def column_def np_dot_f64_def upt4 ops_f64
      f64_values_residue)

lemma residue_fresh:
  "sub_f64 (function_g_f64 np_dot_fma_f64 residue_0 0) (svm_Y residue_0 ! 0) = - 1"
  "sub_f64 (function_g_f64 np_dot_fma_f64 residue_1 1) (svm_Y residue_1 ! 1) = 2"
  "sub_f64 (function_g_f64 np_dot_fma_f64 residue_2 2) (svm_Y residue_2 ! 2) = 1 / 2 ^ 53"
  "sub_f64 (function_g_f64 np_dot_f64 residue_2 2) (svm_Y residue_2 ! 2) = 0"
  by (simp_all add: residue_0_def residue_1_def residue_2_def function_g_f64_def
      np_dot_fma_f64_def np_dot_f64_def ops_f64 f64_values_residue)

lemma residue_kkt:
  "kkt_violated_f64 residue_0 0 (- 1)"
  "kkt_violated_f64 residue_1 1 2"
  "kkt_violated_f64 residue_2 2 (1 / 2 ^ 53)"
  "\<not> kkt_violated_f64 residue_2 2 0"
  by (simp_all add: kkt_violated_f64_def residue_0_def residue_1_def residue_2_def eps_def
      ops_f64 f64_values_residue Let_def)

text \<open>
  C4. In binary64 the freshly computed \<open>E1\<close> need not equal the cached \<open>E[i1]\<close>. On
  three copies of the point \<open>-3\<close> and the point \<open>0\<close> with labels \<open>1\<close>, \<open>-1\<close>, \<open>-1\<close>,
  \<open>-1\<close>, the first two calls of \<open>examine_example\<close> find a violation and can only update
  with index 3, every other pair having \<open>eta = 0\<close>; this leaves \<open>alpha = [a, a, 0, 0]\<close>
  with \<open>a\<close> the binary64 number nearest to \<open>2/9\<close>, \<open>b = -1\<close> and the cache
  \<open>E = [-2, 0, 0, 0]\<close>, which is what \<open>create_E\<close> computes when the matrix product
  rounds every product: \<open>9 a\<close> rounds to \<open>2\<close>. The third call computes
  \<open>g(x\<^sub>2) - y\<^sub>2\<close> with the product of two vectors; when that accumulates with fused
  multiply-add, \<open>2 - 9 a = 2\<^sup>-\<^sup>5\<^sup>3\<close> is not rounded away, \<open>E1 = 2\<^sup>-\<^sup>5\<^sup>3\<close> differs from
  the cached \<open>0\<close>, and the KKT check reports a violation that the cached value does
  not show. With the same accumulation in both methods the two values agree.
\<close>

theorem fresh_error_differs_from_cache_f64:
  "init_args (init 1 1000 ''linear'') [[- 3], [- 3], [- 3], [0]] [1, - 1, - 1, - 1]
     = Inr residue_0 \<and>
   sub_f64 (function_g_f64 np_dot_fma_f64 residue_0 0) (svm_Y residue_0 ! 0) = - 1 \<and>
   kkt_violated_f64 residue_0 0 (- 1) \<and>
   update_alpha_pair_f64 np_dot_f64 residue_0 0 1 = Inr (False, residue_0) \<and>
   update_alpha_pair_f64 np_dot_f64 residue_0 0 2 = Inr (False, residue_0) \<and>
   update_alpha_pair_f64 np_dot_f64 residue_0 0 3 = Inr (True, residue_1) \<and>
   sub_f64 (function_g_f64 np_dot_fma_f64 residue_1 1) (svm_Y residue_1 ! 1) = 2 \<and>
   kkt_violated_f64 residue_1 1 2 \<and>
   update_alpha_pair_f64 np_dot_f64 residue_1 1 0 = Inr (False, residue_1) \<and>
   update_alpha_pair_f64 np_dot_f64 residue_1 1 2 = Inr (False, residue_1) \<and>
   update_alpha_pair_f64 np_dot_f64 residue_1 1 3 = Inr (True, residue_2) \<and>
   create_E_f64 np_dot_f64 residue_2 = residue_2 \<and>
   svm_E residue_2 ! 2 = 0 \<and>
   sub_f64 (function_g_f64 np_dot_fma_f64 residue_2 2) (svm_Y residue_2 ! 2) = 1 / 2 ^ 53 \<and>
   sub_f64 (function_g_f64 np_dot_fma_f64 residue_2 2) (svm_Y residue_2 ! 2)
     \<noteq> svm_E residue_2 ! 2 \<and>
   kkt_violated_f64 residue_2 2 (1 / 2 ^ 53) \<and>
   \<not> kkt_violated_f64 residue_2 2 (svm_E residue_2 ! 2) \<and>
   sub_f64 (function_g_f64 np_dot_f64 residue_2 2) (svm_Y residue_2 ! 2) = svm_E residue_2 ! 2"
proof -
  have ne: "sub_f64 (function_g_f64 np_dot_fma_f64 residue_2 2) (svm_Y residue_2 ! 2)
     \<noteq> svm_E residue_2 ! 2"
    unfolding residue_fresh(3) residue_cache(2) by simp
  have nk: "\<not> kkt_violated_f64 residue_2 2 (svm_E residue_2 ! 2)"
    unfolding residue_cache(2) by (rule residue_kkt(4))
  have same: "sub_f64 (function_g_f64 np_dot_f64 residue_2 2) (svm_Y residue_2 ! 2)
     = svm_E residue_2 ! 2"
    unfolding residue_fresh(4) residue_cache(2) ..
  show ?thesis
    by (intro conjI)
      (rule residue_init residue_fresh(1-3) residue_kkt(1-3) residue_updates residue_cache
        ne nk same)+
qed

section \<open>Inference, the kernel and the score\<close>

lemma decision_rows_run:
  assumes "decision_rows s xs decisions = Inr rs"
  shows "\<exists>rs'. rs = decisions @ rs' \<and> length rs' = length xs \<and>
           (\<forall>i < length xs. decision_function s (Array1 (xs ! i)) = Inr [rs' ! i])"
  using assms
proof (induction xs arbitrary: decisions)
  case Nil
  then show ?case by simp
next
  case (Cons x xs)
  from Cons.prems obtain r where r: "decision_loop s x [0..<svm_m s] (svm_b s) = Inr r"
    and rest: "decision_rows s xs (decisions @ [r]) = Inr rs"
    by (auto split: sum.splits)
  from Cons.IH [OF rest] obtain rs' where rs: "rs = (decisions @ [r]) @ rs'"
    and l: "length rs' = length xs"
    and e: "\<forall>i < length xs. decision_function s (Array1 (xs ! i)) = Inr [rs' ! i]"
    by blast
  have "\<forall>i < length (x # xs). decision_function s (Array1 ((x # xs) ! i)) = Inr [(r # rs') ! i]"
  proof (intro allI impI)
    fix i assume "i < length (x # xs)"
    then show "decision_function s (Array1 ((x # xs) ! i)) = Inr [(r # rs') ! i]"
      using r e by (cases i) simp_all
  qed
  with rs l show ?case
    by (intro exI [of _ "r # rs'"]) simp
qed

text \<open>
  C7. \<open>predict\<close> returns \<open>+1\<close> exactly when the raw decision value is strictly
  positive and \<open>-1\<close> otherwise, zero included; \<open>decision_function\<close> on one vector
  returns that raw value in an array of length one, and on a matrix the raw value of
  every row. Both raise exactly when a kernel call raises. Where every kernel call
  returns, the raw value is \<open>b + \<Sum>\<^sub>j alpha\<^sub>j y\<^sub>j kernel(x\<^sub>j, x)\<close>.
\<close>

theorem predict_thresholds_decision:
  "(predict s x = Inr 1 \<longleftrightarrow> (\<exists>r. decision_function s (Array1 x) = Inr [r] \<and> 0 < r)) \<and>
   (predict s x = Inr (- 1) \<longleftrightarrow> (\<exists>r. decision_function s (Array1 x) = Inr [r] \<and> r \<le> 0)) \<and>
   (predict s x = Inl e \<longleftrightarrow> decision_function s (Array1 x) = Inl e) \<and>
   ((\<forall>j < svm_m s. \<exists>k. kernel s x (svm_X s ! j) = Inr k) \<longrightarrow>
      decision_function s (Array1 x) = Inr [spec_decision s x] \<and>
      predict s x = Inr (if 0 < spec_decision s x then 1 else - 1)) \<and>
   (decision_function s (Array2 xs) = Inr rs \<longrightarrow>
      length rs = length xs \<and>
      (\<forall>i < length xs. predict s (xs ! i) = Inr (if 0 < rs ! i then 1 else - 1)))"
proof (intro conjI impI)
  show "predict s x = Inr 1 \<longleftrightarrow> (\<exists>r. decision_function s (Array1 x) = Inr [r] \<and> 0 < r)"
    by (cases "decision_loop s x [0..<svm_m s] (svm_b s)") (auto simp: predict_def)
  show "predict s x = Inr (- 1) \<longleftrightarrow> (\<exists>r. decision_function s (Array1 x) = Inr [r] \<and> r \<le> 0)"
    by (cases "decision_loop s x [0..<svm_m s] (svm_b s)") (auto simp: predict_def)
  show "predict s x = Inl e \<longleftrightarrow> decision_function s (Array1 x) = Inl e"
    by (cases "decision_loop s x [0..<svm_m s] (svm_b s)") (auto simp: predict_def)
next
  assume "\<forall>j < svm_m s. \<exists>k. kernel s x (svm_X s ! j) = Inr k"
  from decision_loop_spec [OF this]
  show "decision_function s (Array1 x) = Inr [spec_decision s x]"
    "predict s x = Inr (if 0 < spec_decision s x then 1 else - 1)"
    by (simp_all add: predict_def)
next
  assume "decision_function s (Array2 xs) = Inr rs"
  then have "decision_rows s xs [] = Inr rs" by simp
  from decision_rows_run [OF this]
  have l: "length rs = length xs"
    and e: "\<forall>i < length xs. decision_function s (Array1 (xs ! i)) = Inr [rs ! i]"
    by auto
  from l show "length rs = length xs" .
  show "\<forall>i < length xs. predict s (xs ! i) = Inr (if 0 < rs ! i then 1 else - 1)"
    using e by (simp add: predict_via_decision_function)
qed

theorem predict_thresholds_decision_witness:
  "kernel line_trained [0] (svm_X line_trained ! 0) = Inr 0 \<and>
   kernel line_trained [0] (svm_X line_trained ! 1) = Inr 0 \<and>
   spec_decision line_trained [0] = 0 \<and>
   decision_function line_trained (Array1 [0]) = Inr [0] \<and>
   predict line_trained [0] = Inr (- 1) \<and>
   decision_function line_trained (Array2 [[2], [0]]) = Inr [2, 0] \<and>
   predict line_trained [2] = Inr 1"
proof -
  have k: "kernel line_trained [0] (svm_X line_trained ! 0) = Inr 0"
    "kernel line_trained [0] (svm_X line_trained ! 1) = Inr 0"
    by (simp_all add: kernel_def line_trained_def np_dot_def dot_def)
  have m: "svm_m line_trained = Suc (Suc 0)" by (simp add: line_trained_def)
  have tot: "\<forall>j < svm_m line_trained. \<exists>k. kernel line_trained [0] (svm_X line_trained ! j) = Inr k"
    unfolding m using k by (auto simp: less_Suc_eq)
  have sd: "spec_decision line_trained [0] = 0"
    by (simp add: spec_decision_def line_trained_def kernel_value_def kernel_def np_dot_def
        dot_def eval_nat_numeral)
  have rows: "decision_function line_trained (Array2 [[2], [0]]) = Inr [2, 0]"
    by (simp add: line_trained_def upt2 kernel_def np_dot_def dot_def)
  note inst = predict_thresholds_decision [where s = line_trained and x = "[0]"
      and xs = "[[2], [0]]" and rs = "[2, 0]"]
  from inst [THEN conjunct2, THEN conjunct2, THEN conjunct2, THEN conjunct1] tot
  have d: "decision_function line_trained (Array1 [0]) = Inr [spec_decision line_trained [0]]"
    and p: "predict line_trained [0] = Inr (if 0 < spec_decision line_trained [0] then 1 else - 1)"
    by blast+
  from inst [THEN conjunct2, THEN conjunct2, THEN conjunct2, THEN conjunct2] rows
  have "\<forall>i < length [[2::real], [0]].
      predict line_trained ([[2], [0]] ! i) = Inr (if 0 < [2, 0::real] ! i then 1 else - 1)"
    by blast
  from this [rule_format, of 0] have p2: "predict line_trained [2] = Inr 1"
    by simp
  show ?thesis
    using k sd d p rows p2 by simp
qed

text \<open>
  C8. On a rectangular feature matrix \<open>computer_product_matrix\<close> returns a matrix of
  size \<open>m\<close> with \<open>product_matrix[i][j] = product_matrix[j][i]\<close> and
  \<open>product_matrix[i][j] = kernel(x\<^sub>i, x\<^sub>j)\<close> for all training indices. The loops
  evaluate the kernel on the pairs with \<open>i \<le> j\<close> only and copy the value, so the
  entry at \<open>[i][j]\<close> is the kernel of the pair ordered by index; it is the kernel of
  \<open>(x\<^sub>i, x\<^sub>j)\<close> for \<open>i > j\<close> because every variant of the kernel is symmetric.
\<close>

theorem product_matrix_symmetric_kernel:
  assumes "length (svm_X s) = svm_m s" and "rectangular (svm_X s)"
  shows "\<exists>M. computer_product_matrix s = Inr (s\<lparr>product_matrix := M\<rparr>) \<and>
           matrix_dims (svm_m s) M \<and>
           (\<forall>i < svm_m s. \<forall>j < svm_m s.
              M ! i ! j = M ! j ! i \<and>
              kernel s (svm_X s ! i) (svm_X s ! j) = Inr (M ! i ! j) \<and>
              kernel s (svm_X s ! min i j) (svm_X s ! max i j) = Inr (M ! i ! j))"
proof -
  note tot = rectangular_total [OF assms(2,1)]
  then have "\<forall>i < svm_m s. \<forall>j < svm_m s. \<exists>v. kernel s (svm_X s ! i) (svm_X s ! j) = Inr v"
    by blast
  from computer_product_matrix_run [OF this]
  obtain M where run: "computer_product_matrix s = Inr (s\<lparr>product_matrix := M\<rparr>)"
    and d: "matrix_dims (svm_m s) M"
    and e: "\<forall>p < svm_m s. \<forall>q < svm_m s.
              M ! p ! q = kernel_value s (svm_X s ! min p q) (svm_X s ! max p q)"
    by blast
  have "M ! i ! j = M ! j ! i \<and>
        kernel s (svm_X s ! i) (svm_X s ! j) = Inr (M ! i ! j) \<and>
        kernel s (svm_X s ! min i j) (svm_X s ! max i j) = Inr (M ! i ! j)"
    if ij: "i < svm_m s" "j < svm_m s" for i j
  proof -
    from e ij have a: "M ! i ! j = kernel_value s (svm_X s ! min i j) (svm_X s ! max i j)"
      and b: "M ! j ! i = kernel_value s (svm_X s ! min j i) (svm_X s ! max j i)"
      by blast+
    from ij have mm: "min i j < svm_m s" "max i j < svm_m s" by (simp_all add: min_def max_def)
    have c: "kernel_value s (svm_X s ! min i j) (svm_X s ! max i j) =
        kernel_value s (svm_X s ! i) (svm_X s ! j)"
      using kernel_value_symmetric [of s "svm_X s ! j" "svm_X s ! i"]
      by (cases "i \<le> j") (simp_all add: min_def max_def)
    from a b have "M ! i ! j = M ! j ! i" by (simp add: min.commute max.commute)
    moreover from tot ij a c have "kernel s (svm_X s ! i) (svm_X s ! j) = Inr (M ! i ! j)"
      by simp
    moreover from tot mm a
    have "kernel s (svm_X s ! min i j) (svm_X s ! max i j) = Inr (M ! i ! j)"
      by simp
    ultimately show ?thesis by blast
  qed
  with run d show ?thesis by blast
qed

theorem product_matrix_symmetric_kernel_witness:
  "length (svm_X line_start) = svm_m line_start \<and> rectangular (svm_X line_start) \<and>
   kernel line_start (svm_X line_start ! 0) (svm_X line_start ! 1) = Inr (- 1) \<and>
   (\<exists>M. computer_product_matrix line_start = Inr (line_start\<lparr>product_matrix := M\<rparr>) \<and>
      M ! 0 ! 1 = - 1 \<and> M ! 1 ! 0 = - 1)"
proof -
  have l: "length (svm_X line_start) = svm_m line_start"
    and r: "rectangular (svm_X line_start)"
    by (simp_all add: line_start_def rectangular_def)
  have k: "kernel line_start (svm_X line_start ! 0) (svm_X line_start ! 1) = Inr (- 1)"
    by (simp add: kernel_def line_start_def np_dot_def dot_def)
  have i: "0 < svm_m line_start" "1 < svm_m line_start" by (simp_all add: line_fields)
  from product_matrix_symmetric_kernel [OF l r]
  obtain M where run: "computer_product_matrix line_start = Inr (line_start\<lparr>product_matrix := M\<rparr>)"
    and e: "\<forall>i < svm_m line_start. \<forall>j < svm_m line_start.
              M ! i ! j = M ! j ! i \<and>
              kernel line_start (svm_X line_start ! i) (svm_X line_start ! j) = Inr (M ! i ! j) \<and>
              kernel line_start (svm_X line_start ! min i j) (svm_X line_start ! max i j) =
                Inr (M ! i ! j)"
    by blast
  from e i have "M ! 0 ! 1 = M ! 1 ! 0"
    "kernel line_start (svm_X line_start ! 0) (svm_X line_start ! 1) = Inr (M ! 0 ! 1)"
    by blast+
  with k have "M ! 0 ! 1 = - 1" "M ! 1 ! 0 = - 1" by simp_all
  with run have "\<exists>M. computer_product_matrix line_start = Inr (line_start\<lparr>product_matrix := M\<rparr>) \<and>
      M ! 0 ! 1 = - 1 \<and> M ! 1 ! 0 = - 1"
    by blast
  with l r k show ?thesis by blast
qed

text \<open>
  C9. For a kernel name other than linear, poly and rbf the kernel returns \<open>0\<close> on
  every pair of vectors, of whatever lengths, and raises nothing. Every entry of the
  Gram matrix is then \<open>0\<close>, and every kernel term of the decision function is \<open>0\<close>, so
  the raw decision value is the bias.
\<close>

theorem unknown_kernel_is_zero:
  assumes "kernel_name s \<noteq> ''linear''" and "kernel_name s \<noteq> ''poly''"
    and "kernel_name s \<noteq> ''rbf''"
  shows "(\<forall>x1 x2. kernel s x1 x2 = Inr 0) \<and>
         (\<exists>M. computer_product_matrix s = Inr (s\<lparr>product_matrix := M\<rparr>) \<and>
            matrix_dims (svm_m s) M \<and> (\<forall>i < svm_m s. \<forall>j < svm_m s. M ! i ! j = 0)) \<and>
         (\<forall>x. decision_function s (Array1 x) = Inr [svm_b s] \<and>
            predict s x = Inr (if 0 < svm_b s then 1 else - 1))"
proof (intro conjI allI)
  have k: "kernel s x1 x2 = Inr 0" for x1 x2
    using assms by (simp add: kernel_def)
  then show "kernel s x1 x2 = Inr 0" for x1 x2 .
  have kv: "kernel_value s x1 x2 = 0" for x1 x2
    by (simp add: kernel_value_def k)
  have "\<forall>i < svm_m s. \<forall>j < svm_m s. \<exists>v. kernel s (svm_X s ! i) (svm_X s ! j) = Inr v"
    using k by blast
  from computer_product_matrix_run [OF this]
  show "\<exists>M. computer_product_matrix s = Inr (s\<lparr>product_matrix := M\<rparr>) \<and>
            matrix_dims (svm_m s) M \<and> (\<forall>i < svm_m s. \<forall>j < svm_m s. M ! i ! j = 0)"
    by (simp add: kv)
  fix x
  have "\<forall>j < svm_m s. \<exists>v. kernel s x (svm_X s ! j) = Inr v"
    using k by blast
  from decision_loop_spec [OF this]
  have "decision_loop s x [0..<svm_m s] (svm_b s) = Inr (svm_b s)"
    by (simp add: spec_decision_def kv)
  then show "decision_function s (Array1 x) = Inr [svm_b s]"
    "predict s x = Inr (if 0 < svm_b s then 1 else - 1)"
    by (simp_all add: predict_def)
qed

theorem unknown_kernel_is_zero_witness:
  "kernel_name sigmoid_svm \<noteq> ''linear'' \<and> kernel_name sigmoid_svm \<noteq> ''poly'' \<and>
   kernel_name sigmoid_svm \<noteq> ''rbf'' \<and>
   kernel sigmoid_svm [1, 2] [3] = Inr 0 \<and> svm_b sigmoid_svm = 0 \<and>
   decision_function sigmoid_svm (Array1 [5]) = Inr [0] \<and>
   predict sigmoid_svm [5] = Inr (- 1)"
proof -
  have n: "kernel_name sigmoid_svm \<noteq> ''linear''" "kernel_name sigmoid_svm \<noteq> ''poly''"
    "kernel_name sigmoid_svm \<noteq> ''rbf''"
    by (simp_all add: sigmoid_svm_def)
  have b: "svm_b sigmoid_svm = 0"
    by (simp add: sigmoid_svm_def line_trained_def)
  from unknown_kernel_is_zero [OF n]
  have "kernel sigmoid_svm [1, 2] [3] = Inr 0"
    "decision_function sigmoid_svm (Array1 [5]) = Inr [svm_b sigmoid_svm]"
    "predict sigmoid_svm [5] = Inr (if 0 < svm_b sigmoid_svm then 1 else - 1)"
    by blast+
  with n b show ?thesis by simp
qed

text \<open>
  C10. \<open>score\<close> on an empty evaluation set raises ZeroDivisionError. Whenever it
  returns a number the evaluation set is non-empty and the number is the fraction of
  correct predictions, between \<open>0\<close> and \<open>1\<close>; on a non-empty evaluation set of
  well-shaped samples with a label each it does return.
\<close>

theorem score_needs_samples:
  "score s [] y_test = Inl ZeroDivisionError \<and>
   (score s X_test y_test = Inr r \<longrightarrow>
      X_test \<noteq> [] \<and> r = spec_fraction s X_test y_test \<and> 0 \<le> r \<and> r \<le> 1) \<and>
   (X_test \<noteq> [] \<and> length X_test \<le> length y_test \<and> length (svm_X s) = svm_m s \<and>
      (\<forall>x \<in> set X_test. \<forall>z \<in> set (svm_X s). length z = length x) \<longrightarrow>
      score s X_test y_test = Inr (spec_fraction s X_test y_test))"
proof (intro conjI impI)
  show "score s [] y_test = Inl ZeroDivisionError" by (rule score_empty)
next
  assume "score s X_test y_test = Inr r"
  from score_result [OF this]
  show "X_test \<noteq> []" "r = spec_fraction s X_test y_test" "0 \<le> r" "r \<le> 1" .
next
  assume a: "X_test \<noteq> [] \<and> length X_test \<le> length y_test \<and> length (svm_X s) = svm_m s \<and>
      (\<forall>x \<in> set X_test. \<forall>z \<in> set (svm_X s). length z = length x)"
  then have "\<forall>x \<in> set X_test. list_all (\<lambda>z. length z = length x) (svm_X s)"
    by (simp add: list_all_iff)
  with a show "score s X_test y_test = Inr (spec_fraction s X_test y_test)"
    by (intro score_run) simp_all
qed

theorem score_needs_samples_witness:
  "score line_trained [] line_y_test = Inl ZeroDivisionError \<and>
   score line_trained line_X_test line_y_test = Inr (3 / 4) \<and>
   line_X_test \<noteq> [] \<and> 3 / 4 = spec_fraction line_trained line_X_test line_y_test \<and>
   length line_X_test \<le> length line_y_test \<and>
   length (svm_X line_trained) = svm_m line_trained \<and>
   list_all (\<lambda>x. list_all (\<lambda>z. length z = length x) (svm_X line_trained)) line_X_test"
proof -
  note inst = score_needs_samples [where s = line_trained and y_test = line_y_test
      and X_test = line_X_test and r = "3 / 4"]
  from inst [THEN conjunct1]
  have z: "score line_trained [] line_y_test = Inl ZeroDivisionError" .
  from inst [THEN conjunct2, THEN conjunct1] score_line
  have f: "line_X_test \<noteq> []" "3 / 4 = spec_fraction line_trained line_X_test line_y_test"
    by blast+
  have h: "length line_X_test \<le> length line_y_test"
    "length (svm_X line_trained) = svm_m line_trained"
    "list_all (\<lambda>x. list_all (\<lambda>z. length z = length x) (svm_X line_trained)) line_X_test"
    by (simp_all add: line_X_test_def line_y_test_def line_trained_def)
  from h(3) have "\<forall>x \<in> set line_X_test. \<forall>z \<in> set (svm_X line_trained). length z = length x"
    by (simp add: list_all_iff)
  with inst [THEN conjunct2, THEN conjunct2] f(1) h(1,2)
  have "score line_trained line_X_test line_y_test =
      Inr (spec_fraction line_trained line_X_test line_y_test)"
    by blast
  with f(2) have s: "score line_trained line_X_test line_y_test = Inr (3 / 4)" by simp
  show ?thesis
    by (intro conjI) (rule z s f h)+
qed

end
